theory Spec2Isabelle
  imports Main "HOL-Library.Word" "HOL-Library.AList"
begin

section \<open>The IR objects that codegenerator.cpp manipulates\<close>

text \<open>
  The file under verification, \<^verbatim>\<open>src/codegenerator.cpp\<close>, drives the translation of
  machine code into LLVM IR. It builds and rewrites IR objects through the LLVM API:
  functions with a linkage, a return type and a list of basic blocks; basic blocks as
  lists of instructions; instructions carrying metadata attachments indexed by kind.
  Only the part of the IR that the file reads or writes is represented.
\<close>

datatype Linkage = ExternalLinkage | InternalLinkage | CommonLinkage

datatype Type = VoidTy | IntegerTy nat | FloatTy | DoubleTy | PointerTy Type

text \<open>
  The three metadata kinds registered by the constructor (\<^verbatim>\<open>"oi"\<close>, \<^verbatim>\<open>"pi"\<close>,
  \<^verbatim>\<open>"dbg"\<close>). A metadata node has an identity (two distinct nodes may hold the same
  string) and a content.
\<close>

datatype MDKind = OriginalInstrMDKind | PTCInstrMDKind | DbgMDKind

datatype MDNode = MDNode (node_id: nat) (node_string: string)

text \<open>
  \<^verbatim>\<open>ConstantInt w v\<close> is the constant \<^verbatim>\<open>v\<close> of type \<^verbatim>\<open>iw\<close>. A local variable of type
  \<^verbatim>\<open>Value *\<close> is null, points to a value, or was never assigned.
\<close>

datatype Value = ConstantInt nat nat

datatype ValuePtr = nullptr | Uninitialized | Ptr Value

text \<open>
  Instructions: the ones the file creates itself, and \<^verbatim>\<open>OtherInst\<close> for whatever the
  collaborators emit. A block is referred to by its index in the block list of its function;
  a function by its name in its module (the callee of a call is such a pointer, null
  or not).
\<close>

datatype Opcode =
    ReturnInst ValuePtr
  | CallInst "string option" "Value list"
  | UnreachableInst
  | BranchInst nat
  | OtherInst string

record Instruction =
  opcode :: Opcode
  metadata :: "(MDKind \<times> MDNode) list"

type_synonym BasicBlock = "Instruction list"

record Function =
  linkage :: Linkage
  returnType :: Type
  BasicBlocks :: "BasicBlock list"

type_synonym Module = "string \<rightharpoonup> Function"

text \<open>
  \<^verbatim>\<open>assert\<close> aborts the run when its condition is false (the file is modelled with
  assertions enabled). A read outside an array is undefined in C++; the model makes it
  an error of its own.
\<close>

datatype error = AssertionFailed | OutOfBounds

definition assert :: "bool \<Rightarrow> error + unit" where
  "assert c = (if c then Inr () else Inl AssertionFailed)"

definition newInst :: "Opcode \<Rightarrow> Instruction" where
  "newInst k = \<lparr>opcode = k, metadata = []\<rparr>"

section \<open>LLVM operations used by the stubbing code\<close>

text \<open>
  \<^verbatim>\<open>Module::getFunction\<close> returns a pointer to the function of that name, or null.
  A \<^verbatim>\<open>Function *\<close> is modelled by the name under which the module holds the function;
  a store through a pointer that names no function leaves the module as it is (the
  pointers of this file all come from \<^verbatim>\<open>getFunction\<close>).
\<close>

definition getFunction :: "Module \<Rightarrow> string \<Rightarrow> string option" where
  "getFunction M Name = (case M Name of None \<Rightarrow> None | Some f \<Rightarrow> Some Name)"

definition updFunction :: "string \<Rightarrow> (Function \<Rightarrow> Function) \<Rightarrow> Module \<Rightarrow> Module" where
  "updFunction p g M = (case M p of None \<Rightarrow> M | Some f \<Rightarrow> M(p \<mapsto> g f))"

definition setLinkage :: "string \<Rightarrow> Linkage \<Rightarrow> Module \<Rightarrow> Module" where
  "setLinkage p l = updFunction p (\<lambda>f. f\<lparr>linkage := l\<rparr>)"

text \<open>\<^verbatim>\<open>Function::dropAllReferences\<close> deletes every basic block of the function.\<close>

definition dropAllReferences :: "string \<Rightarrow> Module \<Rightarrow> Module" where
  "dropAllReferences p = updFunction p (\<lambda>f. f\<lparr>BasicBlocks := []\<rparr>)"

text \<open>
  \<^verbatim>\<open>BasicBlock::Create(Context, "", F)\<close> appends a new empty block to \<^verbatim>\<open>F\<close> and
  returns it.
\<close>

definition BasicBlock_Create :: "string \<Rightarrow> Module \<Rightarrow> nat \<times> Module" where
  "BasicBlock_Create p M =
     ((case M p of None \<Rightarrow> 0 | Some f \<Rightarrow> length (BasicBlocks f)),
      updFunction p (\<lambda>f. f\<lparr>BasicBlocks := BasicBlocks f @ [[]]\<rparr>) M)"

text \<open>
  Creating an instruction with an \<^verbatim>\<open>InsertAtEnd\<close> block appends it to that block.
\<close>

definition insertAtEnd :: "string \<Rightarrow> nat \<Rightarrow> Instruction \<Rightarrow> Module \<Rightarrow> Module" where
  "insertAtEnd p b i =
     updFunction p (\<lambda>f. f\<lparr>BasicBlocks := (BasicBlocks f)[b := BasicBlocks f ! b @ [i]]\<rparr>)"

definition getReturnType :: "Module \<Rightarrow> string \<Rightarrow> Type option" where
  "getReturnType M p = map_option returnType (M p)"

fun isVoidTy :: "Type \<Rightarrow> bool" where
  "isVoidTy VoidTy = True"
| "isVoidTy _ = False"

fun isIntegerTy :: "Type \<Rightarrow> bool" where
  "isIntegerTy (IntegerTy w) = True"
| "isIntegerTy _ = False"

text \<open>
  \<^verbatim>\<open>ConstantInt::get(Ty, V, false)\<close> builds the constant whose bits are the low
  \<^verbatim>\<open>w\<close> bits of the 64-bit \<^verbatim>\<open>V\<close>, zero-extended when \<^verbatim>\<open>w\<close> exceeds 64. The file
  calls it behind \<^verbatim>\<open>isIntegerTy\<close> only, so the second equation is never used.
\<close>

fun ConstantInt_get :: "Type \<Rightarrow> 64 word \<Rightarrow> Value" where
  "ConstantInt_get (IntegerTy w) V = ConstantInt w (unat V mod 2 ^ w)"
| "ConstantInt_get _ V = ConstantInt 0 0"

section \<open>replaceFunction and replaceFunctionWithRet\<close>

text \<open>
  \<^verbatim>\<open>
  static BasicBlock *replaceFunction(Function *ToReplace) {
    ToReplace->setLinkage(GlobalValue::InternalLinkage);
    ToReplace->dropAllReferences();
    return BasicBlock::Create(ToReplace->getParent()->getContext(), "", ToReplace);
  }
  \<close>
\<close>

definition replaceFunction :: "string \<Rightarrow> Module \<Rightarrow> nat \<times> Module" where
  "replaceFunction ToReplace M =
     BasicBlock_Create ToReplace
       (dropAllReferences ToReplace (setLinkage ToReplace InternalLinkage M))"

text \<open>
  \<^verbatim>\<open>
  static void replaceFunctionWithRet(Function *ToReplace, uint64_t Result) {
    if (ToReplace == nullptr)
      return;
    BasicBlock *Body = replaceFunction(ToReplace);
    Value *ResultValue;
    if (ToReplace->getReturnType()->isVoidTy()) {
      assert(Result == 0);
      ResultValue = nullptr;
    } else if (ToReplace->getReturnType()->isIntegerTy()) {
      auto *ReturnType = cast<IntegerType>(ToReplace->getReturnType());
      ResultValue = ConstantInt::get(ReturnType, Result, false);
    } else {
      assert("No-op functions can only return void or an integer type");
    }
    ReturnInst::Create(ToReplace->getParent()->getContext(), ResultValue, Body);
  }
  \<close>
  The condition of the last \<^verbatim>\<open>assert\<close> is a string literal, that is a non-null
  pointer: the condition is true. In that branch \<^verbatim>\<open>ResultValue\<close> is never assigned.
  \<^verbatim>\<open>ResultValue_of\<close> is the \<^verbatim>\<open>if\<close> chain that computes \<^verbatim>\<open>ResultValue\<close>.
\<close>

definition ResultValue_of :: "Type \<Rightarrow> 64 word \<Rightarrow> error + ValuePtr" where
  "ResultValue_of ReturnType Result =
     (if isVoidTy ReturnType then
        (case assert (Result = 0) of Inl e \<Rightarrow> Inl e | Inr _ \<Rightarrow> Inr nullptr)
      else if isIntegerTy ReturnType then
        Inr (Ptr (ConstantInt_get ReturnType Result))
      else
        (case assert True of Inl e \<Rightarrow> Inl e | Inr _ \<Rightarrow> Inr Uninitialized))"

definition replaceFunctionWithRet :: "Module \<Rightarrow> string option \<Rightarrow> 64 word \<Rightarrow> error + Module" where
  "replaceFunctionWithRet M ToReplace Result =
     (case ToReplace of
        None \<Rightarrow> Inr M
      | Some p \<Rightarrow>
          (let (Body, M1) = replaceFunction p M in
           case getReturnType M1 p of
             None \<Rightarrow> Inr M1
           | Some ReturnType \<Rightarrow>
               (case ResultValue_of ReturnType Result of
                  Inl e \<Rightarrow> Inl e
                | Inr ResultValue \<Rightarrow>
                    Inr (insertAtEnd p Body (newInst (ReturnInst ResultValue)) M1))))"

section \<open>The stubbing phase of CodeGenerator::translate\<close>

definition NoOpFunctionNames :: "string list" where
  "NoOpFunctionNames =
     [''qemu_log_mask'', ''fprintf'', ''cpu_dump_state'', ''mmap_lock'', ''mmap_unlock'',
      ''pthread_cond_broadcast'', ''pthread_mutex_unlock'', ''pthread_mutex_lock'',
      ''pthread_cond_wait'', ''pthread_cond_signal'', ''cpu_exit'', ''start_exclusive'',
      ''process_pending_signals'', ''end_exclusive'']"

definition AbortFunctionNames :: "string list" where
  "AbortFunctionNames =
     [''cpu_restore_state'', ''gdb_handlesig'', ''queue_signal'', ''cpu_mips_exec'',
      ''print_syscall'', ''print_syscall_ret'', ''EmulateAll'', ''cpu_abort'',
      ''do_arm_semihosting'']"

text \<open>
  \<^verbatim>\<open>
  for (auto Name : NoOpFunctionNames)
    replaceFunctionWithRet(HelpersModule->getFunction(Name), 0);
  \<close>
\<close>

fun noOpLoop :: "string list \<Rightarrow> Module \<Rightarrow> error + Module" where
  "noOpLoop [] M = Inr M"
| "noOpLoop (Name # Names) M =
     (case replaceFunctionWithRet M (getFunction M Name) 0 of
        Inl e \<Rightarrow> Inl e
      | Inr M' \<Rightarrow> noOpLoop Names M')"

text \<open>
  \<^verbatim>\<open>
  for (auto Name : AbortFunctionNames) {
    Function *TheFunction = HelpersModule->getFunction(Name);
    if (TheFunction != nullptr) {
      assert(HelpersModule->getFunction("abort") != nullptr);
      BasicBlock *NewBody = replaceFunction(TheFunction);
      CallInst::Create(HelpersModule->getFunction("abort"), { }, NewBody);
      new UnreachableInst(Context, NewBody);
    }
  }
  \<close>
  \<^verbatim>\<open>abortBody\<close> is the body of this loop for one name.
\<close>

definition abortBody :: "string \<Rightarrow> Module \<Rightarrow> error + Module" where
  "abortBody Name M =
     (case getFunction M Name of
        None \<Rightarrow> Inr M
      | Some TheFunction \<Rightarrow>
          (case assert (getFunction M ''abort'' \<noteq> None) of
             Inl e \<Rightarrow> Inl e
           | Inr _ \<Rightarrow>
               (let (NewBody, M1) = replaceFunction TheFunction M;
                    M2 = insertAtEnd TheFunction NewBody
                           (newInst (CallInst (getFunction M1 ''abort'') [])) M1
                in Inr (insertAtEnd TheFunction NewBody (newInst UnreachableInst) M2))))"

fun abortLoop :: "string list \<Rightarrow> Module \<Rightarrow> error + Module" where
  "abortLoop [] M = Inr M"
| "abortLoop (Name # Names) M =
     (case abortBody Name M of
        Inl e \<Rightarrow> Inl e
      | Inr M' \<Rightarrow> abortLoop Names M')"

text \<open>
  Lines 277 to 292 of \<^verbatim>\<open>CodeGenerator::translate\<close>, which work on the helpers module
  (the global \<^verbatim>\<open>do_strace\<close> declared just before goes to the output module and is left
  out): the two loops, then
  \<^verbatim>\<open>
  replaceFunctionWithRet(HelpersModule->getFunction("page_check_range"), 1);
  replaceFunctionWithRet(HelpersModule->getFunction("page_get_flags"), 0xffffffff);
  \<close>
\<close>

definition translate_stubs :: "Module \<Rightarrow> error + Module" where
  "translate_stubs HelpersModule =
     (case noOpLoop NoOpFunctionNames HelpersModule of
        Inl e \<Rightarrow> Inl e
      | Inr M1 \<Rightarrow>
     (case abortLoop AbortFunctionNames M1 of
        Inl e \<Rightarrow> Inl e
      | Inr M2 \<Rightarrow>
     (case replaceFunctionWithRet M2 (getFunction M2 ''page_check_range'') 1 of
        Inl e \<Rightarrow> Inl e
      | Inr M3 \<Rightarrow>
          replaceFunctionWithRet M3 (getFunction M3 ''page_get_flags'') 0xffffffff)))"


section \<open>Pseudo-operations and the state of one translation\<close>

text \<open>
  The decoder's output (\<^verbatim>\<open>PTCInstructionList\<close>): an array of pseudo-operations and its
  \<^verbatim>\<open>unsigned\<close> length. Of the opcodes, the dispatch names three; every other one
  goes to the generic handler.
\<close>

datatype PTCOpcode =
    PTC_INSTRUCTION_op_discard
  | PTC_INSTRUCTION_op_debug_insn_start
  | PTC_INSTRUCTION_op_call
  | PTC_INSTRUCTION_op_other nat

record PTCInstruction =
  opc :: PTCOpcode
  args :: "64 word list"

record PTCInstructionList =
  instructions :: "PTCInstruction list"
  instruction_count :: "32 word"

text \<open>
  What the orchestrator and its collaborators share while one region is translated: the
  blocks of the function under construction (a \<^verbatim>\<open>BasicBlock *\<close> is an index into
  them), the block at whose end the \<^verbatim>\<open>IRBuilder\<close> inserts, the vector \<^verbatim>\<open>Blocks\<close>
  of the blocks touched by the current pseudo-op, the number of metadata nodes the
  context has created (the identity of the next one), and the collaborators' own state.
\<close>

record 'c TranslationState =
  FunctionBlocks :: "BasicBlock list"
  InsertBlock :: nat
  Blocks :: "nat list"
  NextNodeId :: nat
  Private :: 'c

text \<open>
  The collaborators, whose code is in other files, are parameters: the pseudo-op compiler
  (\<^verbatim>\<open>newInstruction\<close>, \<^verbatim>\<open>translateCall\<close>, \<^verbatim>\<open>translate\<close>,
  \<^verbatim>\<open>closeLastInstruction\<close>), the jump-target registry (\<^verbatim>\<open>getBlockAt\<close>), the
  machine-state mapper (\<^verbatim>\<open>newFunction\<close>) and the pseudo-op printer
  (\<^verbatim>\<open>dumpInstruction\<close>). Each may change the shared state in any way.
\<close>

record 'c InstructionTranslator =
  newInstruction ::
    "PTCInstruction \<Rightarrow> bool \<Rightarrow> 'c TranslationState \<Rightarrow> (bool \<times> MDNode option) \<times> 'c TranslationState"
  translateCall :: "PTCInstruction \<Rightarrow> 'c TranslationState \<Rightarrow> 'c TranslationState"
  translate :: "PTCInstruction \<Rightarrow> 'c TranslationState \<Rightarrow> 'c TranslationState"
  closeLastInstruction :: "64 word \<Rightarrow> 'c TranslationState \<Rightarrow> 'c TranslationState"
  getBlockAt :: "64 word \<Rightarrow> 'c TranslationState \<Rightarrow> nat \<times> 'c TranslationState"
  newFunction :: "PTCInstructionList \<Rightarrow> 'c TranslationState \<Rightarrow> 'c TranslationState"
  dumpInstruction :: "PTCInstructionList \<Rightarrow> 32 word \<Rightarrow> string"

section \<open>LLVM operations used by the translation loop\<close>

text \<open>
  \<^verbatim>\<open>Instruction::hasMetadata\<close> is true when any metadata is attached;
  \<^verbatim>\<open>setMetadata(Kind, Node)\<close> attaches or replaces the node of that kind, and removes
  it when the node is null.
\<close>

definition hasMetadata :: "Instruction \<Rightarrow> bool" where
  "hasMetadata I = (metadata I \<noteq> [])"

fun setMetadata :: "MDKind \<Rightarrow> MDNode option \<Rightarrow> Instruction \<Rightarrow> Instruction" where
  "setMetadata Kind None I = I\<lparr>metadata := AList.delete Kind (metadata I)\<rparr>"
| "setMetadata Kind (Some Node) I = I\<lparr>metadata := AList.update Kind Node (metadata I)\<rparr>"


text \<open>\<^verbatim>\<open>MDNode::getDistinct\<close> creates a node that is equal to no other node.\<close>

definition MDNode_getDistinct ::
  "string \<Rightarrow> 'c TranslationState \<Rightarrow> MDNode \<times> 'c TranslationState" where
  "MDNode_getDistinct s st = (MDNode (NextNodeId st) s, st\<lparr>NextNodeId := Suc (NextNodeId st)\<rparr>)"

text \<open>\<^verbatim>\<open>Builder.CreateBr(Dest)\<close> appends a branch at the builder's insertion point.\<close>

definition CreateBr :: "nat \<Rightarrow> 'c TranslationState \<Rightarrow> 'c TranslationState" where
  "CreateBr Dest st =
     st\<lparr>FunctionBlocks :=
          (FunctionBlocks st)[InsertBlock st :=
             FunctionBlocks st ! InsertBlock st @ [newInst (BranchInst Dest)]]\<rparr>"

section \<open>The metadata walk\<close>

text \<open>
  \<^verbatim>\<open>
  BasicBlock::iterator I = Block->end();
  while (I != Block->begin() && !(--I)->hasMetadata()) {
    I->setMetadata(OriginalInstrMDKind, MDOriginalInstr);
    I->setMetadata(PTCInstrMDKind, MDPTCInstr);
  }
  \<close>
  The iterator is its position in the block: \<^verbatim>\<open>begin\<close> is 0 and \<^verbatim>\<open>end\<close> the length.
  \<^verbatim>\<open>MDPTCInstr\<close> comes from \<^verbatim>\<open>getDistinct\<close> and is never null.
\<close>

fun tagWalk :: "MDNode option \<Rightarrow> MDNode \<Rightarrow> BasicBlock \<Rightarrow> nat \<Rightarrow> BasicBlock" where
  "tagWalk MDOriginalInstr MDPTCInstr Block 0 = Block"
| "tagWalk MDOriginalInstr MDPTCInstr Block (Suc I) =
     (if \<not> hasMetadata (Block ! I) then
        tagWalk MDOriginalInstr MDPTCInstr
          (Block[I := setMetadata PTCInstrMDKind (Some MDPTCInstr)
                        (setMetadata OriginalInstrMDKind MDOriginalInstr (Block ! I))])
          I
      else Block)"

text \<open>
  \<^verbatim>\<open>for (BasicBlock *Block : Blocks) ...\<close>: the walk over each block of the vector, in
  order. A pointer that is no block of the function changes nothing.
\<close>

fun tagBlocks :: "MDNode option \<Rightarrow> MDNode \<Rightarrow> nat list \<Rightarrow> BasicBlock list \<Rightarrow> BasicBlock list" where
  "tagBlocks MDOriginalInstr MDPTCInstr [] bbs = bbs"
| "tagBlocks MDOriginalInstr MDPTCInstr (Block # Rest) bbs =
     tagBlocks MDOriginalInstr MDPTCInstr Rest
       (if Block < length bbs then
          bbs[Block := tagWalk MDOriginalInstr MDPTCInstr (bbs ! Block) (length (bbs ! Block))]
        else bbs)"

section \<open>The loop over the pseudo-operations of one batch\<close>

text \<open>The local variables of the loop that outlive one iteration, and the shared state.\<close>

record 'c LoopState =
  State :: "'c TranslationState"
  MDOriginalInstr :: "MDNode option"
  StopTranslation :: bool

text \<open>
  The first statements of the loop body and its \<^verbatim>\<open>switch\<close>:
  \<^verbatim>\<open>
  Blocks.clear();
  Blocks.push_back(Builder.GetInsertBlock());
  switch(Opcode) {
  case PTC_INSTRUCTION_op_discard:
    break;
  case PTC_INSTRUCTION_op_debug_insn_start:
    std::tie(StopTranslation, MDOriginalInstr) = Translator.newInstruction(&Instruction, false);
    break;
  case PTC_INSTRUCTION_op_call:
    Translator.translateCall(&Instruction);
    if (j == InstructionList->instruction_count - 1)
      Builder.CreateBr(JumpTargets.getBlockAt(NextPC));
    break;
  default:
    Translator.translate(&Instruction);
  }
  \<close>
  \<^verbatim>\<open>j\<close> and \<^verbatim>\<open>instruction_count\<close> are \<^verbatim>\<open>unsigned\<close>: the subtraction wraps.
\<close>

definition dispatch ::
  "'c InstructionTranslator \<Rightarrow> PTCInstructionList \<Rightarrow> 64 word \<Rightarrow> 32 word \<Rightarrow> PTCInstruction \<Rightarrow>
   'c LoopState \<Rightarrow> 'c LoopState" where
  "dispatch T IL NextPC j Instruction L =
     (let st0 = (State L)\<lparr>Blocks := [InsertBlock (State L)]\<rparr> in
      case opc Instruction of
        PTC_INSTRUCTION_op_discard \<Rightarrow> L\<lparr>State := st0\<rparr>
      | PTC_INSTRUCTION_op_debug_insn_start \<Rightarrow>
          (let ((Stop, MD), st1) = newInstruction T Instruction False st0
           in \<lparr>State = st1, MDOriginalInstr = MD, StopTranslation = Stop\<rparr>)
      | PTC_INSTRUCTION_op_call \<Rightarrow>
          (let st1 = translateCall T Instruction st0 in
           if j = instruction_count IL - 1 then
             (let (Dest, st2) = getBlockAt T NextPC st1 in L\<lparr>State := CreateBr Dest st2\<rparr>)
           else L\<lparr>State := st1\<rparr>)
      | PTC_INSTRUCTION_op_other x \<Rightarrow> L\<lparr>State := translate T Instruction st0\<rparr>)"

text \<open>
  The rest of the body: the metadata node of the pseudo-op, then the walk.
  \<^verbatim>\<open>
  dumpInstruction(PTCStringStream, InstructionList.get(), j);
  std::string PTCString = PTCStringStream.str() + "\n";
  MDString *MDPTCString = MDString::get(Context, PTCString);
  MDNode* MDPTCInstr = MDNode::getDistinct(Context, MDPTCString);
  for (BasicBlock *Block : Blocks) { ... }
  \<close>
\<close>

definition setNewMetadata ::
  "'c InstructionTranslator \<Rightarrow> PTCInstructionList \<Rightarrow> 32 word \<Rightarrow> 'c LoopState \<Rightarrow> 'c LoopState" where
  "setNewMetadata T IL j L =
     (let PTCString = dumpInstruction T IL j @ [CHR 0x0A];
          (MDPTCInstr, st) = MDNode_getDistinct PTCString (State L)
      in L\<lparr>State := st\<lparr>FunctionBlocks :=
            tagBlocks (MDOriginalInstr L) MDPTCInstr (Blocks st) (FunctionBlocks st)\<rparr>\<rparr>)"

definition loopBody ::
  "'c InstructionTranslator \<Rightarrow> PTCInstructionList \<Rightarrow> 64 word \<Rightarrow> 32 word \<Rightarrow> PTCInstruction \<Rightarrow>
   'c LoopState \<Rightarrow> 'c LoopState" where
  "loopBody T IL NextPC j Instruction L =
     setNewMetadata T IL j (dispatch T IL NextPC j Instruction L)"

text \<open>
  \<^verbatim>\<open>for (; j < InstructionList->instruction_count && !StopTranslation; j++)\<close>, reading
  \<^verbatim>\<open>InstructionList->instructions[j]\<close>.
\<close>

function batchLoop ::
  "'c InstructionTranslator \<Rightarrow> PTCInstructionList \<Rightarrow> 64 word \<Rightarrow> 32 word \<Rightarrow> 'c LoopState \<Rightarrow>
   error + 'c LoopState" where
  "batchLoop T IL NextPC j L =
     (if j < instruction_count IL \<and> \<not> StopTranslation L then
        (if unat j < length (instructions IL) then
           batchLoop T IL NextPC (j + 1) (loopBody T IL NextPC j (instructions IL ! unat j) L)
         else Inl OutOfBounds)
      else Inr L)"
  by pat_completeness auto
termination
proof (relation "measure (\<lambda>(T, IL, NextPC, j, L). unat (instruction_count IL - j))")
  show "wf (measure (\<lambda>(T, IL, NextPC, j, L). unat (instruction_count IL - j)))"
    by simp
next
  fix T :: "'c InstructionTranslator" and IL :: PTCInstructionList and NextPC :: "64 word"
    and j :: "32 word" and L :: "'c LoopState"
  assume "j < instruction_count IL \<and> \<not> StopTranslation L"
  then have "j < instruction_count IL"
    by simp
  then have "unat (instruction_count IL - (j + 1)) < unat (instruction_count IL - j)"
    by unat_arith
  then show "((T, IL, NextPC, j + 1, loopBody T IL NextPC j (instructions IL ! unat j) L),
              (T, IL, NextPC, j, L))
             \<in> measure (\<lambda>(T, IL, NextPC, j, L). unat (instruction_count IL - j))"
    by simp
qed

text \<open>The loop's equation is used where a proof asks for it, one turn at a time.\<close>

declare batchLoop.simps [simp del]

text \<open>
  One turn of the outer loop, from the decoder's answer (the list and the number of bytes
  consumed) to \<^verbatim>\<open>closeLastInstruction\<close>:
  \<^verbatim>\<open>
  uint64_t NextPC = VirtualAddress + ConsumedSize;
  Variables.newFunction(Delimiter, InstructionList.get());
  unsigned j = 0;
  MDNode* MDOriginalInstr = nullptr;
  bool StopTranslation = false;
  {
    PTCInstruction *Instruction = &InstructionList->instructions[j];
    auto Result = Translator.newInstruction(Instruction, true);
    std::tie(StopTranslation, MDOriginalInstr) = Result;
    j++;
  }
  for (...) { ... }
  Translator.closeLastInstruction(NextPC);
  \<close>
\<close>

definition translateBatch ::
  "'c InstructionTranslator \<Rightarrow> PTCInstructionList \<Rightarrow> 64 word \<Rightarrow> 64 word \<Rightarrow> 'c TranslationState \<Rightarrow>
   error + 'c LoopState" where
  "translateBatch T IL VirtualAddress ConsumedSize st =
     (let NextPC = VirtualAddress + ConsumedSize;
          st0 = newFunction T IL st
      in case instructions IL of
           [] \<Rightarrow> Inl OutOfBounds
         | Instruction # _ \<Rightarrow>
             (let ((Stop, MD), st1) = newInstruction T Instruction True st0 in
              case batchLoop T IL NextPC 1
                     \<lparr>State = st1, MDOriginalInstr = MD, StopTranslation = Stop\<rparr> of
                Inl e \<Rightarrow> Inl e
              | Inr L \<Rightarrow> Inr (L\<lparr>State := closeLastInstruction T NextPC (State L)\<rparr>)))"

text \<open>
  The loop as a relation: from \<^verbatim>\<open>j\<close> and the variables \<^verbatim>\<open>L\<close> it gets, by zero or more
  turns, to \<^verbatim>\<open>j'\<close> and \<^verbatim>\<open>L'\<close>. A turn is taken under the loop's condition and reads
  the array in range.
\<close>

inductive loopReaches ::
  "'c InstructionTranslator \<Rightarrow> PTCInstructionList \<Rightarrow> 64 word \<Rightarrow> 32 word \<Rightarrow> 'c LoopState \<Rightarrow>
   32 word \<Rightarrow> 'c LoopState \<Rightarrow> bool"
  for T :: "'c InstructionTranslator" and IL :: PTCInstructionList and NextPC :: "64 word" where
  here: "loopReaches T IL NextPC j L j L"
| turn: "j < instruction_count IL \<Longrightarrow> \<not> StopTranslation L \<Longrightarrow>
         unat j < length (instructions IL) \<Longrightarrow>
         loopReaches T IL NextPC (j + 1) (loopBody T IL NextPC j (instructions IL ! unat j) L) j' L' \<Longrightarrow>
         loopReaches T IL NextPC j L j' L'"

section \<open>CodeGenerator::serialize\<close>

text \<open>
  The file system as the function sees it: the contents of the files, and which paths can
  be opened for writing. \<^verbatim>\<open>std::ofstream Output(OutputPath)\<close> creates or truncates the
  file when it can be opened; otherwise the stream is in a failed state, no exception is
  thrown, and every later write to it does nothing.
\<close>

record FileSystem =
  contents :: "string \<rightharpoonup> string"
  canOpen :: "string \<Rightarrow> bool"

datatype ofstream = FailedStream | OpenStream string

definition ofstream_open :: "string \<Rightarrow> FileSystem \<Rightarrow> ofstream \<times> FileSystem" where
  "ofstream_open Path fs =
     (if canOpen fs Path then (OpenStream Path, fs\<lparr>contents := (contents fs)(Path \<mapsto> [])\<rparr>)
      else (FailedStream, fs))"

fun ofstream_write :: "ofstream \<Rightarrow> string \<Rightarrow> FileSystem \<Rightarrow> FileSystem" where
  "ofstream_write FailedStream s fs = fs"
| "ofstream_write (OpenStream Path) s fs =
     fs\<lparr>contents := (contents fs)(Path \<mapsto> (case contents fs Path of None \<Rightarrow> [] | Some old \<Rightarrow> old) @ s)\<rparr>"

text \<open>
  The debug sink, whose code is in another file, is a parameter: \<^verbatim>\<open>copySource\<close> answers
  whether it has put a good copy of the IR in place (and may write files doing so);
  \<^verbatim>\<open>moduleText\<close> is what \<^verbatim>\<open>Debug->print(Output, false)\<close> sends to the stream.
\<close>

record DebugHelper =
  copySource :: "FileSystem \<Rightarrow> bool \<times> FileSystem"
  moduleText :: string

text \<open>
  \<^verbatim>\<open>
  void CodeGenerator::serialize() {
    if (!Debug->copySource()) {
      std::ofstream Output(OutputPath);
      Debug->print(Output, false);
    }
  }
  \<close>
  The function returns nothing; \<^verbatim>\<open>Inl\<close> stands for a failure that reaches the caller
  (an exception or an abort).
\<close>

definition serialize :: "DebugHelper \<Rightarrow> string \<Rightarrow> FileSystem \<Rightarrow> error + FileSystem" where
  "serialize Debug OutputPath fs =
     (let (copied, fs1) = copySource Debug fs in
      if \<not> copied then
        (let (Output, fs2) = ofstream_open OutputPath fs1
         in Inr (ofstream_write Output (moduleText Debug) fs2))
      else Inr fs1)"


section \<open>Vocabulary of the statements\<close>

text \<open>
  The definitions of this section are no part of the program: they describe results, so
  that the lemmas below can say what the program computes.

  \<^verbatim>\<open>stubbed ops f\<close> is \<^verbatim>\<open>f\<close> made internal, its body replaced by one block of the
  instructions \<^verbatim>\<open>ops\<close>. \<^verbatim>\<open>retVal\<close> is the operand that \<^verbatim>\<open>replaceFunctionWithRet\<close>
  hands to the return instruction, and \<^verbatim>\<open>retStub\<close>, \<^verbatim>\<open>abortStub\<close> are the two kinds
  of stub.
\<close>

definition stubbed :: "Opcode list \<Rightarrow> Function \<Rightarrow> Function" where
  "stubbed ops f = f\<lparr>linkage := InternalLinkage, BasicBlocks := [map newInst ops]\<rparr>"

definition retVal :: "Type \<Rightarrow> 64 word \<Rightarrow> ValuePtr" where
  "retVal t r =
     (if isVoidTy t then nullptr
      else if isIntegerTy t then Ptr (ConstantInt_get t r)
      else Uninitialized)"

definition retStub :: "64 word \<Rightarrow> Function \<Rightarrow> Function" where
  "retStub r f = stubbed [ReturnInst (retVal (returnType f) r)] f"

definition abortStub :: "Function \<Rightarrow> Function" where
  "abortStub f = stubbed [CallInst (Some ''abort'') [], UnreachableInst] f"

text \<open>
  The two ways in which the stubbing phase aborts: a function to trap is present while
  \<^verbatim>\<open>abort\<close> is not, or a function stubbed with a non-zero result returns void.
\<close>

definition voidAt :: "Module \<Rightarrow> string \<Rightarrow> bool" where
  "voidAt M n = (case M n of None \<Rightarrow> False | Some f \<Rightarrow> isVoidTy (returnType f))"

definition trapFails :: "Module \<Rightarrow> bool" where
  "trapFails M = (M ''abort'' = None \<and> list_ex (\<lambda>n. M n \<noteq> None) AbortFunctionNames)"

definition stubsOf :: "Module \<Rightarrow> Module" where
  "stubsOf M = (\<lambda>n.
     if n \<in> set NoOpFunctionNames then map_option (retStub 0) (M n)
     else if n \<in> set AbortFunctionNames then map_option abortStub (M n)
     else if n = ''page_check_range'' then map_option (retStub 1) (M n)
     else if n = ''page_get_flags'' then map_option (retStub 0xffffffff) (M n)
     else M n)"

text \<open>
  \<^verbatim>\<open>stamp\<close> is what one turn of the metadata walk does to an instruction; a block is
  settled when the walk finds nothing to do in it.
\<close>

definition stamp :: "MDNode option \<Rightarrow> MDNode \<Rightarrow> Instruction \<Rightarrow> Instruction" where
  "stamp oi pi I = setMetadata PTCInstrMDKind (Some pi) (setMetadata OriginalInstrMDKind oi I)"

definition unannotated :: "Instruction \<Rightarrow> bool" where
  "unannotated I = (\<not> hasMetadata I)"

definition settled :: "BasicBlock \<Rightarrow> bool" where
  "settled Block = (takeWhile unannotated (rev Block) = [])"





section \<open>A small instance of the collaborators\<close>

text \<open>
  For the examples: a pseudo-op compiler that appends one instruction to the builder's
  block for a call and for a generic pseudo-op, and nothing for an instruction-start
  marker, for which it makes a new metadata node and asks to stop when the marker's
  argument is 1; a registry in which the block of an address is the block of that index;
  a printer that prints every pseudo-op as \<^verbatim>\<open>op\<close>.
\<close>

definition exampleEmit :: "Opcode \<Rightarrow> unit TranslationState \<Rightarrow> unit TranslationState" where
  "exampleEmit k st =
     st\<lparr>FunctionBlocks :=
          (FunctionBlocks st)[InsertBlock st := FunctionBlocks st ! InsertBlock st @ [newInst k]]\<rparr>"

definition exampleTranslator :: "unit InstructionTranslator" where
  "exampleTranslator =
     \<lparr>newInstruction = (\<lambda>I first st.
          ((args I = [1], Some (MDNode (NextNodeId st) ''insn'')),
           st\<lparr>NextNodeId := Suc (NextNodeId st)\<rparr>)),
      translateCall = (\<lambda>I. exampleEmit (OtherInst ''call'')),
      translate = (\<lambda>I. exampleEmit (OtherInst ''op'')),
      closeLastInstruction = (\<lambda>pc st. st),
      getBlockAt = (\<lambda>pc st. (unat pc, st)),
      newFunction = (\<lambda>IL st. st),
      dumpInstruction = (\<lambda>IL j. ''op'')\<rparr>"

definition exampleState :: "unit TranslationState" where
  "exampleState =
     \<lparr>FunctionBlocks = [[], []], InsertBlock = 0, Blocks = [], NextNodeId = 0, Private = ()\<rparr>"

text \<open>The loop's variables after the first marker of a batch, started in that state.\<close>

definition afterFirstMarker :: "unit LoopState" where
  "afterFirstMarker =
     \<lparr>State = exampleState\<lparr>NextNodeId := 1\<rparr>, MDOriginalInstr = Some (MDNode 0 ''insn''),
      StopTranslation = False\<rparr>"

definition insn_start :: PTCInstruction where
  "insn_start = \<lparr>opc = PTC_INSTRUCTION_op_debug_insn_start, args = [0]\<rparr>"

definition insn_start_stop :: PTCInstruction where
  "insn_start_stop = \<lparr>opc = PTC_INSTRUCTION_op_debug_insn_start, args = [1]\<rparr>"

definition op_call :: PTCInstruction where
  "op_call = \<lparr>opc = PTC_INSTRUCTION_op_call, args = []\<rparr>"

definition op_mov :: PTCInstruction where
  "op_mov = \<lparr>opc = PTC_INSTRUCTION_op_other 0, args = []\<rparr>"

text \<open>A block whose second instruction carries a debug location and nothing else does.\<close>

definition exampleBlock :: BasicBlock where
  "exampleBlock =
     [\<lparr>opcode = OtherInst ''a'', metadata = []\<rparr>,
      \<lparr>opcode = OtherInst ''b'', metadata = [(DbgMDKind, MDNode 7 ''loc'')]\<rparr>,
      \<lparr>opcode = OtherInst ''c'', metadata = []\<rparr>,
      \<lparr>opcode = OtherInst ''d'', metadata = []\<rparr>]"

definition exampleSink :: DebugHelper where
  "exampleSink = \<lparr>copySource = (\<lambda>fs. (False, fs)), moduleText = ''define void @root()''\<rparr>"

definition readOnlyFS :: FileSystem where
  "readOnlyFS = \<lparr>contents = Map.empty, canOpen = (\<lambda>Path. False)\<rparr>"

definition writableFS :: FileSystem where
  "writableFS = \<lparr>contents = Map.empty, canOpen = (\<lambda>Path. True)\<rparr>"

section \<open>What the stubbing operations compute\<close>

lemma replaceFunction_Some:
  "M p = Some f \<Longrightarrow> replaceFunction p M = (0, M(p \<mapsto> stubbed [] f))"
  by (simp add: replaceFunction_def BasicBlock_Create_def dropAllReferences_def
      setLinkage_def updFunction_def stubbed_def)

lemma replaceFunction_None:
  "M p = None \<Longrightarrow> replaceFunction p M = (0, M)"
  by (simp add: replaceFunction_def BasicBlock_Create_def dropAllReferences_def
      setLinkage_def updFunction_def)

lemma getFunction_None: "M n = None \<Longrightarrow> getFunction M n = None"
  by (simp add: getFunction_def)

lemma getFunction_Some: "M n = Some f \<Longrightarrow> getFunction M n = Some n"
  by (simp add: getFunction_def)

lemma getFunction_eq_None: "getFunction M n = None \<longleftrightarrow> M n = None"
  by (simp add: getFunction_def split: option.splits)

lemma insertAtEnd_stubbed:
  "M p = Some (stubbed ks f) \<Longrightarrow>
   insertAtEnd p 0 (newInst k) M = M(p \<mapsto> stubbed (ks @ [k]) f)"
  by (simp add: insertAtEnd_def updFunction_def stubbed_def)

lemma stubbed_stubbed [simp]: "stubbed ks (stubbed ks' f) = stubbed ks f"
  by (simp add: stubbed_def)

lemma returnType_stubbed [simp]: "returnType (stubbed ks f) = returnType f"
  by (simp add: stubbed_def)

lemma linkage_stubbed [simp]: "linkage (stubbed ks f) = InternalLinkage"
  by (simp add: stubbed_def)

lemma BasicBlocks_stubbed [simp]: "BasicBlocks (stubbed ks f) = [map newInst ks]"
  by (simp add: stubbed_def)

lemma ResultValue_of_eq:
  "ResultValue_of t r =
     (if isVoidTy t \<and> r \<noteq> 0 then Inl AssertionFailed else Inr (retVal t r))"
  by (simp add: ResultValue_of_def retVal_def assert_def)

lemma replaceFunctionWithRet_None:
  "M n = None \<Longrightarrow> replaceFunctionWithRet M (getFunction M n) r = Inr M"
  by (simp add: replaceFunctionWithRet_def getFunction_None)

lemma replaceFunctionWithRet_Some:
  "M p = Some f \<Longrightarrow>
   replaceFunctionWithRet M (getFunction M p) r =
     (if isVoidTy (returnType f) \<and> r \<noteq> 0 then Inl AssertionFailed
      else Inr (M(p \<mapsto> retStub r f)))"
  by (simp add: replaceFunctionWithRet_def replaceFunction_Some getReturnType_def
      insertAtEnd_stubbed getFunction_Some ResultValue_of_eq retStub_def)

lemma replaceFunctionWithRet_eq:
  "replaceFunctionWithRet M (getFunction M n) r =
     (if voidAt M n \<and> r \<noteq> 0 then Inl AssertionFailed
      else Inr (M(n := map_option (retStub r) (M n))))"
proof (cases "M n")
  case None
  then show ?thesis
    by (simp add: replaceFunctionWithRet_None voidAt_def fun_eq_iff)
next
  case (Some f)
  then show ?thesis
    by (simp add: replaceFunctionWithRet_Some voidAt_def)
qed

lemma abortBody_None: "M n = None \<Longrightarrow> abortBody n M = Inr M"
  by (simp add: abortBody_def getFunction_None)

lemma abortBody_Some:
  assumes "M n = Some f" and "M ''abort'' \<noteq> None"
  shows "abortBody n M = Inr (M(n \<mapsto> abortStub f))"
proof -
  have "getFunction (M(n \<mapsto> stubbed [] f)) ''abort'' = Some ''abort''"
    using assms by (auto simp add: getFunction_def)
  then show ?thesis
    using assms
    by (simp add: abortBody_def assert_def replaceFunction_Some insertAtEnd_stubbed
        getFunction_Some getFunction_eq_None abortStub_def)
qed

lemma abortBody_fails:
  "M n = Some f \<Longrightarrow> M ''abort'' = None \<Longrightarrow> abortBody n M = Inl AssertionFailed"
  by (simp add: abortBody_def assert_def getFunction_Some getFunction_None)

lemma retStub_retStub [simp]: "retStub r (retStub r' f) = retStub r f"
  by (simp add: retStub_def)

lemma abortStub_abortStub [simp]: "abortStub (abortStub f) = abortStub f"
  by (simp add: abortStub_def)

subsection \<open>The two loops\<close>

lemma noOpLoop_eq:
  "noOpLoop names M = Inr (\<lambda>n. if n \<in> set names then map_option (retStub 0) (M n) else M n)"
proof (induction names arbitrary: M)
  case Nil
  show ?case by simp
next
  case (Cons a names)
  show ?case
  proof (cases "M a")
    case None
    then show ?thesis
      by (auto simp add: replaceFunctionWithRet_None Cons.IH fun_eq_iff)
  next
    case (Some f)
    then show ?thesis
      by (auto simp add: replaceFunctionWithRet_Some Cons.IH fun_eq_iff)
  qed
qed

lemma abortLoop_eq:
  assumes "M ''abort'' \<noteq> None"
  shows "abortLoop names M =
    Inr (\<lambda>n. if n \<in> set names then map_option abortStub (M n) else M n)"
  using assms
proof (induction names arbitrary: M)
  case Nil
  show ?case by simp
next
  case (Cons a names)
  show ?case
  proof (cases "M a")
    case None
    then show ?thesis
      using Cons.prems by (auto simp add: abortBody_None Cons.IH fun_eq_iff)
  next
    case (Some f)
    have "abortLoop names (M(a \<mapsto> abortStub f)) =
      Inr (\<lambda>n. if n \<in> set names then map_option abortStub ((M(a \<mapsto> abortStub f)) n)
               else (M(a \<mapsto> abortStub f)) n)"
      using Cons.prems by (intro Cons.IH) auto
    then show ?thesis
      using Some Cons.prems by (auto simp add: abortBody_Some fun_eq_iff)
  qed
qed

lemma abortLoop_no_abort:
  assumes "M ''abort'' = None"
  shows "abortLoop names M =
    (if list_ex (\<lambda>n. M n \<noteq> None) names then Inl AssertionFailed else Inr M)"
  using assms
proof (induction names arbitrary: M)
  case Nil
  show ?case by simp
next
  case (Cons a names)
  show ?case
  proof (cases "M a")
    case None
    then show ?thesis
      using Cons.prems by (simp add: abortBody_None Cons.IH)
  next
    case (Some f)
    then show ?thesis
      using Cons.prems by (simp add: abortBody_fails)
  qed
qed

lemma abortLoop_cases:
  "abortLoop names M =
     (if M ''abort'' = None \<and> list_ex (\<lambda>n. M n \<noteq> None) names then Inl AssertionFailed
      else Inr (\<lambda>n. if n \<in> set names then map_option abortStub (M n) else M n))"
proof (cases "M ''abort''")
  case None
  then show ?thesis
    by (auto simp add: abortLoop_no_abort fun_eq_iff list_ex_iff)
next
  case (Some g)
  then show ?thesis
    by (simp add: abortLoop_eq)
qed

subsection \<open>The whole phase\<close>

lemma names_disjoint:
  "''abort'' \<notin> set NoOpFunctionNames"
  "''abort'' \<notin> set AbortFunctionNames"
  "''page_check_range'' \<notin> set NoOpFunctionNames"
  "''page_check_range'' \<notin> set AbortFunctionNames"
  "''page_get_flags'' \<notin> set NoOpFunctionNames"
  "''page_get_flags'' \<notin> set AbortFunctionNames"
  "set NoOpFunctionNames \<inter> set AbortFunctionNames = {}"
  by (simp_all add: NoOpFunctionNames_def AbortFunctionNames_def)

lemma translate_stubs_eq:
  "translate_stubs M =
     (if trapFails M \<or> voidAt M ''page_check_range'' \<or> voidAt M ''page_get_flags''
      then Inl AssertionFailed else Inr (stubsOf M))"
proof -
  let ?M1 = "\<lambda>n. if n \<in> set NoOpFunctionNames then map_option (retStub 0) (M n) else M n"
  let ?M2 = "\<lambda>n. if n \<in> set AbortFunctionNames then map_option abortStub (?M1 n) else ?M1 n"
  let ?M3 = "?M2(''page_check_range'' := map_option (retStub 1) (?M2 ''page_check_range''))"
  have tf: "(?M1 ''abort'' = None \<and> list_ex (\<lambda>n. ?M1 n \<noteq> None) AbortFunctionNames) = trapFails M"
    using names_disjoint by (auto simp add: trapFails_def list_ex_iff)
  have v1: "voidAt ?M2 ''page_check_range'' = voidAt M ''page_check_range''"
    by (simp add: voidAt_def names_disjoint)
  have v2: "voidAt ?M3 ''page_get_flags'' = voidAt M ''page_get_flags''"
    by (simp add: voidAt_def names_disjoint)
  have fin: "?M3(''page_get_flags'' := map_option (retStub 0xffffffff) (?M3 ''page_get_flags''))
      = stubsOf M"
  proof (rule ext)
    fix n
    have "\<not> (n \<in> set NoOpFunctionNames \<and> n \<in> set AbortFunctionNames)"
      using names_disjoint(7) by blast
    then show "(?M3(''page_get_flags'' :=
        map_option (retStub 0xffffffff) (?M3 ''page_get_flags''))) n = stubsOf M n"
      by (auto simp add: stubsOf_def names_disjoint)
  qed
  show ?thesis
    unfolding translate_stubs_def noOpLoop_eq
    by (simp only: sum.case abortLoop_cases tf replaceFunctionWithRet_eq v1 v2 fin
        split: if_splits) simp
qed

lemma stubsOf_NoOp:
  "Name \<in> set NoOpFunctionNames \<Longrightarrow> stubsOf M Name = map_option (retStub 0) (M Name)"
  by (simp add: stubsOf_def)

lemma stubsOf_Abort:
  "Name \<in> set AbortFunctionNames \<Longrightarrow> stubsOf M Name = map_option abortStub (M Name)"
  using names_disjoint(7) by (auto simp add: stubsOf_def)

lemma stubsOf_page_check_range:
  "stubsOf M ''page_check_range'' = map_option (retStub 1) (M ''page_check_range'')"
  by (simp add: stubsOf_def names_disjoint)

lemma stubsOf_page_get_flags:
  "stubsOf M ''page_get_flags'' = map_option (retStub 0xffffffff) (M ''page_get_flags'')"
  by (simp add: stubsOf_def names_disjoint)

lemma stubsOf_other:
  "Name \<notin> set NoOpFunctionNames \<Longrightarrow> Name \<notin> set AbortFunctionNames \<Longrightarrow>
   Name \<noteq> ''page_check_range'' \<Longrightarrow> Name \<noteq> ''page_get_flags'' \<Longrightarrow> stubsOf M Name = M Name"
  by (simp add: stubsOf_def)

lemma translate_stubs_Inr:
  "translate_stubs M = Inr M' \<Longrightarrow> M' = stubsOf M"
  by (simp add: translate_stubs_eq split: if_splits)

lemma translate_stubs_Inr_iff:
  "(\<exists>M'. translate_stubs M = Inr M') \<longleftrightarrow>
     \<not> trapFails M \<and> \<not> voidAt M ''page_check_range'' \<and> \<not> voidAt M ''page_get_flags''"
  by (simp add: translate_stubs_eq)


section \<open>Claims about the stubbing phase\<close>

text \<open>
  C2. The claim: a function on the neutralize path whose return type is neither void nor
  an integer type makes the run abort. The code does not abort: the assertion of that
  branch tests a string literal, which is true. Here \<^verbatim>\<open>fprintf\<close> returns a pointer;
  the phase runs to its end and leaves a body that returns the unassigned
  \<^verbatim>\<open>ResultValue\<close>.
\<close>

theorem nonint_return_type_no_abort:
  "translate_stubs
     [''fprintf'' \<mapsto> \<lparr>linkage = ExternalLinkage, returnType = PointerTy (IntegerTy 8),
                      BasicBlocks = [[newInst (OtherInst ''body'')]]\<rparr>] =
   Inr [''fprintf'' \<mapsto> \<lparr>linkage = InternalLinkage, returnType = PointerTy (IntegerTy 8),
                      BasicBlocks = [[newInst (ReturnInst Uninitialized)]]\<rparr>]"
proof -
  let ?A = "[''fprintf'' \<mapsto> \<lparr>linkage = ExternalLinkage, returnType = PointerTy (IntegerTy 8),
                      BasicBlocks = [[newInst (OtherInst ''body'')]]\<rparr>]"
  have ok: "translate_stubs ?A = Inr (stubsOf ?A)"
    by (simp add: translate_stubs_eq trapFails_def voidAt_def AbortFunctionNames_def)
  have "stubsOf ?A n =
    [''fprintf'' \<mapsto> \<lparr>linkage = InternalLinkage, returnType = PointerTy (IntegerTy 8),
                      BasicBlocks = [[newInst (ReturnInst Uninitialized)]]\<rparr>] n" for n
    by (simp add: stubsOf_def retStub_def retVal_def stubbed_def NoOpFunctionNames_def
        AbortFunctionNames_def)
  then show ?thesis
    using ok by (simp add: fun_eq_iff)
qed

text \<open>
  C3. For a name of the trap list that names a function of the helpers module: when
  \<^verbatim>\<open>abort\<close> is absent the whole phase fails on the assertion, and no module results;
  whenever the phase ends, the function is internal and its body is one block, a call to
  \<^verbatim>\<open>abort\<close> followed by \<^verbatim>\<open>unreachable\<close>.
\<close>

theorem trap_stub_calls_abort:
  assumes "Name \<in> set AbortFunctionNames" and "M Name = Some f"
  shows "(M ''abort'' = None \<longrightarrow> translate_stubs M = Inl AssertionFailed) \<and>
         (\<forall>M'. translate_stubs M = Inr M' \<longrightarrow>
            M ''abort'' \<noteq> None \<and>
            M' Name = Some (f\<lparr>linkage := InternalLinkage,
              BasicBlocks := [[newInst (CallInst (Some ''abort'') []), newInst UnreachableInst]]\<rparr>))"
proof (intro conjI impI allI)
  assume "M ''abort'' = None"
  then have "trapFails M"
    using assms by (auto simp add: trapFails_def list_ex_iff)
  then show "translate_stubs M = Inl AssertionFailed"
    by (simp add: translate_stubs_eq)
next
  fix M'
  assume ok: "translate_stubs M = Inr M'"
  then have "\<not> trapFails M"
    by (simp add: translate_stubs_eq split: if_splits)
  then show "M ''abort'' \<noteq> None"
    using assms by (auto simp add: trapFails_def list_ex_iff)
next
  fix M'
  assume "translate_stubs M = Inr M'"
  then have "M' = stubsOf M"
    by (rule translate_stubs_Inr)
  then show "M' Name = Some (f\<lparr>linkage := InternalLinkage,
      BasicBlocks := [[newInst (CallInst (Some ''abort'') []), newInst UnreachableInst]]\<rparr>)"
    using assms by (simp add: stubsOf_Abort abortStub_def stubbed_def)
qed

theorem trap_stub_calls_abort_witness:
  "''cpu_abort'' \<in> set AbortFunctionNames \<and>
   translate_stubs
     [''cpu_abort'' \<mapsto> \<lparr>linkage = ExternalLinkage, returnType = VoidTy, BasicBlocks = [[], []]\<rparr>]
     = Inl AssertionFailed \<and>
   (\<exists>M'. translate_stubs
      [''cpu_abort'' \<mapsto> \<lparr>linkage = ExternalLinkage, returnType = VoidTy, BasicBlocks = [[], []]\<rparr>,
       ''abort'' \<mapsto> \<lparr>linkage = ExternalLinkage, returnType = VoidTy, BasicBlocks = []\<rparr>] = Inr M' \<and>
      M' ''cpu_abort'' = Some \<lparr>linkage = InternalLinkage, returnType = VoidTy,
        BasicBlocks = [[newInst (CallInst (Some ''abort'') []), newInst UnreachableInst]]\<rparr>)"
proof -
  let ?f = "\<lparr>linkage = ExternalLinkage, returnType = VoidTy, BasicBlocks = [[], []]\<rparr>"
  let ?g = "\<lparr>linkage = ExternalLinkage, returnType = VoidTy, BasicBlocks = []\<rparr>"
  let ?A = "[''cpu_abort'' \<mapsto> ?f]"
  let ?B = "[''cpu_abort'' \<mapsto> ?f, ''abort'' \<mapsto> ?g]"
  have mem: "''cpu_abort'' \<in> set AbortFunctionNames"
    by (simp add: AbortFunctionNames_def)
  have a: "translate_stubs ?A = Inl AssertionFailed"
    using trap_stub_calls_abort [where Name = "''cpu_abort''" and M = ?A and f = ?f] mem
    by simp
  have "\<exists>M'. translate_stubs ?B = Inr M'"
    by (simp add: translate_stubs_Inr_iff trapFails_def voidAt_def)
  then obtain M' where b: "translate_stubs ?B = Inr M'" ..
  have "M' ''cpu_abort'' = Some (?f\<lparr>linkage := InternalLinkage,
      BasicBlocks := [[newInst (CallInst (Some ''abort'') []), newInst UnreachableInst]]\<rparr>)"
    using trap_stub_calls_abort [where Name = "''cpu_abort''" and M = ?B and f = ?f] mem b
    by simp
  then show ?thesis
    using mem a b by simp
qed

text \<open>
  C6. For a name of the neutralize list that names a function of the helpers module, the
  loop over the list always runs to its end; afterwards the function is internal and its
  old body is gone: it has one block whose only instruction returns the constant 0 of the
  declared type when that is an integer type, and returns nothing when it is void. The
  later steps of the phase keep that body.
\<close>

theorem neutralize_stub_body:
  assumes "Name \<in> set NoOpFunctionNames" and "M Name = Some f"
  shows "\<exists>M1. noOpLoop NoOpFunctionNames M = Inr M1 \<and>
           (\<forall>w. returnType f = IntegerTy w \<longrightarrow>
              M1 Name = Some (f\<lparr>linkage := InternalLinkage,
                BasicBlocks := [[newInst (ReturnInst (Ptr (ConstantInt w 0)))]]\<rparr>)) \<and>
           (returnType f = VoidTy \<longrightarrow>
              M1 Name = Some (f\<lparr>linkage := InternalLinkage,
                BasicBlocks := [[newInst (ReturnInst nullptr)]]\<rparr>)) \<and>
           (\<forall>M'. translate_stubs M = Inr M' \<longrightarrow> M' Name = M1 Name)"
proof -
  let ?M1 = "\<lambda>n. if n \<in> set NoOpFunctionNames then map_option (retStub 0) (M n) else M n"
  have run: "noOpLoop NoOpFunctionNames M = Inr ?M1"
    by (rule noOpLoop_eq)
  have at: "?M1 Name = Some (retStub 0 f)"
    using assms by simp
  have int: "retStub 0 f = f\<lparr>linkage := InternalLinkage,
      BasicBlocks := [[newInst (ReturnInst (Ptr (ConstantInt w 0)))]]\<rparr>"
    if "returnType f = IntegerTy w" for w
    using that by (simp add: retStub_def retVal_def stubbed_def)
  have void: "retStub 0 f = f\<lparr>linkage := InternalLinkage,
      BasicBlocks := [[newInst (ReturnInst nullptr)]]\<rparr>"
    if "returnType f = VoidTy"
    using that by (simp add: retStub_def retVal_def stubbed_def)
  have fin: "M' Name = ?M1 Name" if "translate_stubs M = Inr M'" for M'
    using translate_stubs_Inr [OF that] assms by (simp add: stubsOf_NoOp)
  show ?thesis
    using run at int void fin by (intro exI [of _ ?M1]) simp
qed

theorem neutralize_stub_body_witness:
  "''cpu_exit'' \<in> set NoOpFunctionNames \<and>
   (\<exists>M'. translate_stubs
      [''cpu_exit'' \<mapsto> \<lparr>linkage = ExternalLinkage, returnType = IntegerTy 32,
                         BasicBlocks = [[newInst (OtherInst ''a'')], [newInst (OtherInst ''b'')]]\<rparr>] = Inr M' \<and>
      M' ''cpu_exit'' = Some \<lparr>linkage = InternalLinkage, returnType = IntegerTy 32,
        BasicBlocks = [[newInst (ReturnInst (Ptr (ConstantInt 32 0)))]]\<rparr>)"
proof -
  let ?f = "\<lparr>linkage = ExternalLinkage, returnType = IntegerTy 32,
             BasicBlocks = [[newInst (OtherInst ''a'')], [newInst (OtherInst ''b'')]]\<rparr>"
  let ?A = "[''cpu_exit'' \<mapsto> ?f]"
  have mem: "''cpu_exit'' \<in> set NoOpFunctionNames"
    by (simp add: NoOpFunctionNames_def)
  have "\<exists>M'. translate_stubs ?A = Inr M'"
    by (simp add: translate_stubs_Inr_iff trapFails_def voidAt_def AbortFunctionNames_def)
  then obtain M' where b: "translate_stubs ?A = Inr M'" ..
  have "M' ''cpu_exit'' = Some (?f\<lparr>linkage := InternalLinkage,
      BasicBlocks := [[newInst (ReturnInst (Ptr (ConstantInt 32 0)))]]\<rparr>)"
    using neutralize_stub_body [where Name = "''cpu_exit''" and M = ?A and f = ?f] mem b
    by auto
  then show ?thesis
    using mem b by simp
qed

text \<open>
  C7. When the phase ends: \<^verbatim>\<open>page_check_range\<close>, declared with an integer return
  type, has a body that returns the constant 1, and \<^verbatim>\<open>page_get_flags\<close>, declared with
  an integer return type of at least 32 bits, a body that returns \<^verbatim>\<open>0xffffffff\<close>.
\<close>

theorem fixed_value_stubs:
  assumes "translate_stubs M = Inr M'"
  shows "(\<forall>f w. M ''page_check_range'' = Some f \<and> returnType f = IntegerTy w \<and> 0 < w \<longrightarrow>
            M' ''page_check_range'' = Some (f\<lparr>linkage := InternalLinkage,
              BasicBlocks := [[newInst (ReturnInst (Ptr (ConstantInt w 1)))]]\<rparr>)) \<and>
         (\<forall>g w. M ''page_get_flags'' = Some g \<and> returnType g = IntegerTy w \<and> 32 \<le> w \<longrightarrow>
            M' ''page_get_flags'' = Some (g\<lparr>linkage := InternalLinkage,
              BasicBlocks := [[newInst (ReturnInst (Ptr (ConstantInt w 0xffffffff)))]]\<rparr>))"
proof -
  have M': "M' = stubsOf M"
    using assms by (rule translate_stubs_Inr)
  have one: "unat (1 :: 64 word) mod 2 ^ w = 1" if "0 < w" for w
    using that by (simp add: mod_less)
  have flags: "(4294967295 :: nat) mod 2 ^ w = 4294967295" if "32 \<le> w" for w
  proof -
    have "(2::nat) ^ 32 \<le> 2 ^ w"
      using that by (intro power_increasing) simp_all
    then have "(0xffffffff :: nat) < 2 ^ w"
      by simp
    then show ?thesis
      by simp
  qed
  show ?thesis
    by (auto simp add: M' stubsOf_page_check_range stubsOf_page_get_flags retStub_def
        retVal_def stubbed_def one flags)
qed

theorem fixed_value_stubs_witness:
  "\<exists>M'. translate_stubs
      [''page_check_range'' \<mapsto> \<lparr>linkage = ExternalLinkage, returnType = IntegerTy 32,
                                 BasicBlocks = [[newInst (OtherInst ''a'')]]\<rparr>,
       ''page_get_flags'' \<mapsto> \<lparr>linkage = ExternalLinkage, returnType = IntegerTy 32,
                               BasicBlocks = []\<rparr>] = Inr M' \<and>
     M' ''page_check_range'' = Some \<lparr>linkage = InternalLinkage, returnType = IntegerTy 32,
        BasicBlocks = [[newInst (ReturnInst (Ptr (ConstantInt 32 1)))]]\<rparr> \<and>
     M' ''page_get_flags'' = Some \<lparr>linkage = InternalLinkage, returnType = IntegerTy 32,
        BasicBlocks = [[newInst (ReturnInst (Ptr (ConstantInt 32 0xffffffff)))]]\<rparr>"
proof -
  let ?f = "\<lparr>linkage = ExternalLinkage, returnType = IntegerTy 32,
             BasicBlocks = [[newInst (OtherInst ''a'')]]\<rparr>"
  let ?g = "\<lparr>linkage = ExternalLinkage, returnType = IntegerTy 32, BasicBlocks = []\<rparr>"
  let ?A = "[''page_check_range'' \<mapsto> ?f, ''page_get_flags'' \<mapsto> ?g]"
  have "\<exists>M'. translate_stubs ?A = Inr M'"
    by (simp add: translate_stubs_Inr_iff trapFails_def voidAt_def AbortFunctionNames_def)
  then obtain M' where b: "translate_stubs ?A = Inr M'" ..
  have 1: "M' ''page_check_range'' = Some (?f\<lparr>linkage := InternalLinkage,
      BasicBlocks := [[newInst (ReturnInst (Ptr (ConstantInt 32 1)))]]\<rparr>)"
    using fixed_value_stubs [OF b] by simp
  have 2: "M' ''page_get_flags'' = Some (?g\<lparr>linkage := InternalLinkage,
      BasicBlocks := [[newInst (ReturnInst (Ptr (ConstantInt 32 0xffffffff)))]]\<rparr>)"
    using fixed_value_stubs [OF b] by simp
  show ?thesis
    using b 1 2 by simp
qed


subsection \<open>Frame and idempotence of the stubbing operations\<close>

lemma replaceFunctionWithRet_frame:
  "replaceFunctionWithRet M (getFunction M Name) r = Inr M' \<Longrightarrow>
   M' = M(Name := map_option (retStub r) (M Name))"
  by (simp add: replaceFunctionWithRet_eq split: if_splits)

lemma abortBody_frame:
  "abortBody Name M = Inr M' \<Longrightarrow> M' = M(Name := map_option abortStub (M Name))"
proof (cases "M Name")
  case None
  assume "abortBody Name M = Inr M'"
  then show ?thesis
    using None by (simp add: abortBody_None fun_eq_iff)
next
  case (Some f)
  assume a: "abortBody Name M = Inr M'"
  then have "M ''abort'' \<noteq> None"
    using Some abortBody_fails [of M Name f] by auto
  then show ?thesis
    using a Some by (simp add: abortBody_Some)
qed

lemma replaceFunctionWithRet_idem:
  assumes "replaceFunctionWithRet M (getFunction M Name) r = Inr M'"
  shows "replaceFunctionWithRet M' (getFunction M' Name) r = Inr M'"
proof -
  have M': "M' = M(Name := map_option (retStub r) (M Name))"
    using assms by (rule replaceFunctionWithRet_frame)
  have ok: "\<not> (voidAt M Name \<and> r \<noteq> 0)"
    using assms by (auto simp add: replaceFunctionWithRet_eq split: if_splits)
  have "voidAt M' Name = voidAt M Name"
    by (simp add: M' voidAt_def retStub_def split: option.splits)
  then show ?thesis
    using ok by (cases "M Name") (auto simp add: replaceFunctionWithRet_eq M' fun_eq_iff)
qed

lemma abortBody_idem:
  assumes "abortBody Name M = Inr M'"
  shows "abortBody Name M' = Inr M'"
proof (cases "M Name")
  case None
  then show ?thesis
    using assms by (simp add: abortBody_None)
next
  case (Some f)
  then have ab: "M ''abort'' \<noteq> None"
    using assms abortBody_fails [of M Name f] by auto
  have M': "M' = M(Name \<mapsto> abortStub f)"
    using assms Some ab by (simp add: abortBody_Some)
  have "M' ''abort'' \<noteq> None"
    using ab by (simp add: M')
  then have "abortBody Name M' = Inr (M'(Name \<mapsto> abortStub (abortStub f)))"
    by (intro abortBody_Some) (simp_all add: M')
  then show ?thesis
    by (simp add: M')
qed

lemma stubsOf_eq_None: "stubsOf M n = None \<longleftrightarrow> M n = None"
  by (simp add: stubsOf_def)

lemma returnType_retStub [simp]: "returnType (retStub r f) = returnType f"
  by (simp add: retStub_def)

lemma stubsOf_idem: "stubsOf (stubsOf M) = stubsOf M"
  by (rule ext) (simp add: stubsOf_def option.map_comp comp_def)

lemma translate_stubs_idem:
  assumes "translate_stubs M = Inr M'"
  shows "translate_stubs M' = Inr M'"
proof -
  have M': "M' = stubsOf M"
    using assms by (rule translate_stubs_Inr)
  have ok: "\<not> trapFails M" "\<not> voidAt M ''page_check_range''" "\<not> voidAt M ''page_get_flags''"
    using assms by (simp_all add: translate_stubs_eq split: if_splits)
  have "stubsOf M ''abort'' = M ''abort''"
    by (simp add: stubsOf_other names_disjoint)
  then have 1: "\<not> trapFails (stubsOf M)"
    using ok(1) by (simp add: trapFails_def list_ex_iff stubsOf_eq_None)
  have 2: "\<not> voidAt (stubsOf M) ''page_check_range''"
    using ok(2) by (simp add: voidAt_def stubsOf_page_check_range split: option.splits)
  have 3: "\<not> voidAt (stubsOf M) ''page_get_flags''"
    using ok(3) by (simp add: voidAt_def stubsOf_page_get_flags split: option.splits)
  show ?thesis
    using 1 2 3 by (simp add: M' translate_stubs_eq stubsOf_idem)
qed

text \<open>
  C9. Stubbing a name that names no function changes nothing, on the neutralize path and
  on the trap path; stubbing a present name leaves every other function as it was and
  gives the function exactly one block; stubbing the same name again, or running the
  whole phase again, yields the same module; the phase creates no function.
\<close>

theorem stubbing_local_and_idempotent:
  "(M Name = None \<longrightarrow>
      replaceFunctionWithRet M (getFunction M Name) r = Inr M \<and> abortBody Name M = Inr M) \<and>
   (\<forall>M'. replaceFunctionWithRet M (getFunction M Name) r = Inr M' \<or> abortBody Name M = Inr M' \<longrightarrow>
      (\<forall>n. n \<noteq> Name \<longrightarrow> M' n = M n) \<and>
      (\<forall>f. M Name = Some f \<longrightarrow> (\<exists>f'. M' Name = Some f' \<and> length (BasicBlocks f') = 1))) \<and>
   (\<forall>M'. replaceFunctionWithRet M (getFunction M Name) r = Inr M' \<longrightarrow>
      replaceFunctionWithRet M' (getFunction M' Name) r = Inr M') \<and>
   (\<forall>M'. abortBody Name M = Inr M' \<longrightarrow> abortBody Name M' = Inr M') \<and>
   (\<forall>M'. translate_stubs M = Inr M' \<longrightarrow>
      translate_stubs M' = Inr M' \<and> (\<forall>n. M n = None \<longrightarrow> M' n = None))"
proof (intro conjI allI impI)
  assume "M Name = None"
  then show "replaceFunctionWithRet M (getFunction M Name) r = Inr M"
    by (rule replaceFunctionWithRet_None)
next
  assume "M Name = None"
  then show "abortBody Name M = Inr M"
    by (rule abortBody_None)
next
  fix M' n
  assume "replaceFunctionWithRet M (getFunction M Name) r = Inr M' \<or> abortBody Name M = Inr M'"
    and "n \<noteq> Name"
  then show "M' n = M n"
    by (auto dest!: replaceFunctionWithRet_frame abortBody_frame)
next
  fix M' f
  assume "replaceFunctionWithRet M (getFunction M Name) r = Inr M' \<or> abortBody Name M = Inr M'"
    and "M Name = Some f"
  then show "\<exists>f'. M' Name = Some f' \<and> length (BasicBlocks f') = 1"
    by (auto dest!: replaceFunctionWithRet_frame abortBody_frame
        simp add: retStub_def abortStub_def)
next
  fix M'
  assume "replaceFunctionWithRet M (getFunction M Name) r = Inr M'"
  then show "replaceFunctionWithRet M' (getFunction M' Name) r = Inr M'"
    by (rule replaceFunctionWithRet_idem)
next
  fix M'
  assume "abortBody Name M = Inr M'"
  then show "abortBody Name M' = Inr M'"
    by (rule abortBody_idem)
next
  fix M'
  assume "translate_stubs M = Inr M'"
  then show "translate_stubs M' = Inr M'"
    by (rule translate_stubs_idem)
next
  fix M' n
  assume "translate_stubs M = Inr M'" and "M n = None"
  then show "M' n = None"
    using translate_stubs_Inr [of M M'] by (simp add: stubsOf_eq_None)
qed

theorem stubbing_local_and_idempotent_witness:
  "replaceFunctionWithRet
     [''cpu_exit'' \<mapsto> \<lparr>linkage = ExternalLinkage, returnType = IntegerTy 32, BasicBlocks = [[], []]\<rparr>]
     (getFunction
       [''cpu_exit'' \<mapsto> \<lparr>linkage = ExternalLinkage, returnType = IntegerTy 32, BasicBlocks = [[], []]\<rparr>]
       ''mmap_lock'') 0 =
   Inr [''cpu_exit'' \<mapsto> \<lparr>linkage = ExternalLinkage, returnType = IntegerTy 32, BasicBlocks = [[], []]\<rparr>] \<and>
   (\<exists>M'. replaceFunctionWithRet
      [''cpu_exit'' \<mapsto> \<lparr>linkage = ExternalLinkage, returnType = IntegerTy 32, BasicBlocks = [[], []]\<rparr>]
      (getFunction
        [''cpu_exit'' \<mapsto> \<lparr>linkage = ExternalLinkage, returnType = IntegerTy 32, BasicBlocks = [[], []]\<rparr>]
        ''cpu_exit'') 0 = Inr M' \<and>
      replaceFunctionWithRet M' (getFunction M' ''cpu_exit'') 0 = Inr M') \<and>
   (\<exists>M'. translate_stubs
      [''cpu_exit'' \<mapsto> \<lparr>linkage = ExternalLinkage, returnType = IntegerTy 32, BasicBlocks = [[], []]\<rparr>]
      = Inr M' \<and> translate_stubs M' = Inr M')"
proof -
  let ?f = "\<lparr>linkage = ExternalLinkage, returnType = IntegerTy 32, BasicBlocks = [[], []]\<rparr>"
  let ?A = "[''cpu_exit'' \<mapsto> ?f]"
  have 1: "replaceFunctionWithRet ?A (getFunction ?A ''mmap_lock'') 0 = Inr ?A"
    using stubbing_local_and_idempotent [where M = ?A and Name = "''mmap_lock''" and r = 0]
    by simp
  have "\<exists>M'. replaceFunctionWithRet ?A (getFunction ?A ''cpu_exit'') 0 = Inr M'"
    by (simp add: replaceFunctionWithRet_eq)
  then obtain M1 where r: "replaceFunctionWithRet ?A (getFunction ?A ''cpu_exit'') 0 = Inr M1" ..
  have 2: "replaceFunctionWithRet M1 (getFunction M1 ''cpu_exit'') 0 = Inr M1"
    using stubbing_local_and_idempotent [where M = ?A and Name = "''cpu_exit''" and r = 0] r
    by blast
  have "\<exists>M'. translate_stubs ?A = Inr M'"
    by (simp add: translate_stubs_Inr_iff trapFails_def voidAt_def AbortFunctionNames_def)
  then obtain M2 where t: "translate_stubs ?A = Inr M2" ..
  have 3: "translate_stubs M2 = Inr M2"
    using stubbing_local_and_idempotent [where M = ?A and Name = "''cpu_exit''" and r = 0] t
    by blast
  show ?thesis
    using 1 r 2 t 3 by blast
qed

text \<open>
  C10. \<^verbatim>\<open>replaceFunction\<close> makes its function internal, and so after the phase every
  function that was stubbed (neutralize list, trap list, or one of the two fixed-value
  functions) is internal.
\<close>

theorem stubbed_functions_internal:
  assumes "M Name = Some f"
  shows "(\<exists>f'. snd (replaceFunction Name M) Name = Some f' \<and> linkage f' = InternalLinkage) \<and>
         (\<forall>M'. translate_stubs M = Inr M' \<and>
            Name \<in> set NoOpFunctionNames \<union> set AbortFunctionNames \<union>
                   {''page_check_range'', ''page_get_flags''} \<longrightarrow>
            (\<exists>f'. M' Name = Some f' \<and> linkage f' = InternalLinkage))"
proof (intro conjI allI impI)
  show "\<exists>f'. snd (replaceFunction Name M) Name = Some f' \<and> linkage f' = InternalLinkage"
    using assms by (simp add: replaceFunction_Some)
next
  fix M'
  assume a: "translate_stubs M = Inr M' \<and>
    Name \<in> set NoOpFunctionNames \<union> set AbortFunctionNames \<union>
           {''page_check_range'', ''page_get_flags''}"
  then have M': "M' = stubsOf M"
    by (simp add: translate_stubs_Inr)
  consider "Name \<in> set NoOpFunctionNames" | "Name \<in> set AbortFunctionNames"
    | "Name = ''page_check_range''" | "Name = ''page_get_flags''"
    using a by auto
  then show "\<exists>f'. M' Name = Some f' \<and> linkage f' = InternalLinkage"
  proof cases
    case 1
    then show ?thesis
      using assms by (simp add: M' stubsOf_NoOp retStub_def)
  next
    case 2
    then show ?thesis
      using assms by (simp add: M' stubsOf_Abort abortStub_def)
  next
    case 3
    then show ?thesis
      using assms by (simp add: M' stubsOf_page_check_range retStub_def)
  next
    case 4
    then show ?thesis
      using assms by (simp add: M' stubsOf_page_get_flags retStub_def)
  qed
qed


theorem stubbed_functions_internal_witness:
  "\<exists>M' f'. translate_stubs
      [''cpu_abort'' \<mapsto> \<lparr>linkage = ExternalLinkage, returnType = VoidTy, BasicBlocks = [[]]\<rparr>,
       ''abort'' \<mapsto> \<lparr>linkage = ExternalLinkage, returnType = VoidTy, BasicBlocks = []\<rparr>] = Inr M' \<and>
     M' ''cpu_abort'' = Some f' \<and> linkage f' = InternalLinkage"
proof -
  let ?f = "\<lparr>linkage = ExternalLinkage, returnType = VoidTy, BasicBlocks = [[]]\<rparr>"
  let ?g = "\<lparr>linkage = ExternalLinkage, returnType = VoidTy, BasicBlocks = []\<rparr>"
  let ?A = "[''cpu_abort'' \<mapsto> ?f, ''abort'' \<mapsto> ?g]"
  have mem: "''cpu_abort'' \<in> set AbortFunctionNames"
    by (simp add: AbortFunctionNames_def)
  have "\<exists>M'. translate_stubs ?A = Inr M'"
    by (simp add: translate_stubs_Inr_iff trapFails_def voidAt_def)
  then obtain M' where b: "translate_stubs ?A = Inr M'" ..
  have "\<exists>f'. M' ''cpu_abort'' = Some f' \<and> linkage f' = InternalLinkage"
    using stubbed_functions_internal [where M = ?A and Name = "''cpu_abort''" and f = ?f] mem b
    by simp
  then show ?thesis
    using b by blast
qed

section \<open>What the metadata walk computes\<close>

lemma hasMetadata_stamp [simp]: "hasMetadata (stamp oi pi I)"
  by (cases "AList.delete OriginalInstrMDKind (metadata I)"; cases oi; cases "metadata I")
     (auto simp add: stamp_def hasMetadata_def split: if_splits)

lemma opcode_stamp [simp]: "opcode (stamp oi pi I) = opcode I"
  by (cases oi) (simp_all add: stamp_def)


lemma tagWalk_append:
  "tagWalk oi pi (xs @ ys) (length xs) =
     rev (dropWhile unannotated (rev xs)) @
     map (stamp oi pi) (rev (takeWhile unannotated (rev xs))) @ ys"
proof (induction xs arbitrary: ys rule: rev_induct)
  case Nil
  show ?case by simp
next
  case (snoc x xs)
  show ?case
  proof (cases "hasMetadata x")
    case True
    then show ?thesis
      by (simp add: unannotated_def)
  next
    case False
    have "tagWalk oi pi ((xs @ [x]) @ ys) (length (xs @ [x])) =
          tagWalk oi pi (xs @ (stamp oi pi x # ys)) (length xs)"
      using False by (simp add: stamp_def)
    then show ?thesis
      using False by (simp add: snoc.IH unannotated_def)
  qed
qed

lemma tagWalk_eq:
  "tagWalk oi pi Block (length Block) =
     rev (dropWhile unannotated (rev Block)) @
     map (stamp oi pi) (rev (takeWhile unannotated (rev Block)))"
  using tagWalk_append [of oi pi Block "[]"] by simp

lemma length_tagWalk [simp]: "length (tagWalk oi pi Block n) = length Block"
  by (induction n arbitrary: Block) simp_all

lemma takeWhile_dropWhile_Nil: "takeWhile P (dropWhile P xs) = []"
  by (induction xs) simp_all

lemma settled_tagWalk: "settled (tagWalk oi pi Block (length Block))"
proof (cases "takeWhile unannotated (rev Block)")
  case Nil
  then show ?thesis
    by (simp add: tagWalk_eq settled_def takeWhile_dropWhile_Nil)
next
  case (Cons x xs)
  then show ?thesis
    by (simp add: tagWalk_eq settled_def rev_map unannotated_def)
qed

lemma tagWalk_settled: "settled Block \<Longrightarrow> tagWalk oi pi Block (length Block) = Block"
proof -
  assume s: "settled Block"
  then have "dropWhile unannotated (rev Block) = rev Block"
    by (metis settled_def takeWhile_dropWhile_id append_Nil)
  then show ?thesis
    using s by (simp add: tagWalk_eq settled_def)
qed

lemma length_tagBlocks [simp]: "length (tagBlocks oi pi Bs bbs) = length bbs"
  by (induction Bs arbitrary: bbs) simp_all

lemma tagBlocks_settled_id:
  "(\<And>b. b \<in> set Bs \<Longrightarrow> b < length bbs \<Longrightarrow> settled (bbs ! b)) \<Longrightarrow>
   tagBlocks oi pi Bs bbs = bbs"
proof (induction Bs arbitrary: bbs)
  case Nil
  show ?case by simp
next
  case (Cons a Bs)
  have "(if a < length bbs then bbs[a := tagWalk oi pi (bbs ! a) (length (bbs ! a))] else bbs)
      = bbs"
    using Cons.prems by (simp add: tagWalk_settled)
  then show ?case
    using Cons by simp
qed

lemma tagBlocks_keeps_settled:
  "k < length bbs \<Longrightarrow> settled (bbs ! k) \<Longrightarrow> settled (tagBlocks oi pi Bs bbs ! k)"
proof (induction Bs arbitrary: bbs)
  case Nil
  then show ?case by simp
next
  case (Cons a Bs)
  let ?bbs = "if a < length bbs then bbs[a := tagWalk oi pi (bbs ! a) (length (bbs ! a))] else bbs"
  have "k < length ?bbs" using Cons.prems by simp
  moreover have "settled (?bbs ! k)"
    using Cons.prems by (cases "a = k") (simp_all add: settled_tagWalk)
  ultimately show ?case
    using Cons.IH [of ?bbs] by simp
qed

lemma tagBlocks_settles:
  "b \<in> set Bs \<Longrightarrow> b < length bbs \<Longrightarrow> settled (tagBlocks oi pi Bs bbs ! b)"
proof (induction Bs arbitrary: bbs)
  case Nil
  then show ?case by simp
next
  case (Cons a Bs)
  let ?bbs = "if a < length bbs then bbs[a := tagWalk oi pi (bbs ! a) (length (bbs ! a))] else bbs"
  show ?case
  proof (cases "b = a")
    case True
    then have "settled (?bbs ! b)" "b < length ?bbs"
      using Cons.prems by (simp_all add: settled_tagWalk)
    then show ?thesis
      using tagBlocks_keeps_settled [of b ?bbs oi pi Bs] by simp
  next
    case False
    then have "b \<in> set Bs" "b < length ?bbs"
      using Cons.prems by simp_all
    then show ?thesis
      using Cons.IH [of ?bbs] by simp
  qed
qed

lemma tagBlocks_idem:
  "tagBlocks oi' pi' Bs (tagBlocks oi pi Bs bbs) = tagBlocks oi pi Bs bbs"
  by (rule tagBlocks_settled_id) (simp add: tagBlocks_settles)

lemma unannotated_eq: "unannotated = (\<lambda>I. \<not> hasMetadata I)"
  by (simp add: fun_eq_iff unannotated_def)

lemma stamp_eq:
  "stamp oi pi = (\<lambda>I. setMetadata PTCInstrMDKind (Some pi) (setMetadata OriginalInstrMDKind oi I))"
  by (simp add: fun_eq_iff stamp_def)

subsection \<open>The walk over the vector of blocks\<close>

lemma tagWalk_tagWalk:
  "tagWalk oi' pi' (tagWalk oi pi Block (length Block)) (length Block) =
   tagWalk oi pi Block (length Block)"
  using tagWalk_settled [OF settled_tagWalk, of oi' pi' oi pi Block] by simp

lemma tagBlocks_nth_notin:
  "b \<notin> set Bs \<Longrightarrow> tagBlocks oi pi Bs bbs ! b = bbs ! b"
  by (induction Bs arbitrary: bbs) simp_all

lemma tagBlocks_nth_in:
  "b \<in> set Bs \<Longrightarrow> b < length bbs \<Longrightarrow>
   tagBlocks oi pi Bs bbs ! b = tagWalk oi pi (bbs ! b) (length (bbs ! b))"
proof (induction Bs arbitrary: bbs)
  case Nil
  then show ?case by simp
next
  case (Cons a Bs)
  let ?bbs = "if a < length bbs then bbs[a := tagWalk oi pi (bbs ! a) (length (bbs ! a))] else bbs"
  have len: "b < length ?bbs"
    using Cons.prems by simp
  have at: "tagWalk oi pi (?bbs ! b) (length (?bbs ! b)) = tagWalk oi pi (bbs ! b) (length (bbs ! b))"
    using Cons.prems by (cases "a = b") (simp_all add: tagWalk_tagWalk)
  show ?case
  proof (cases "b \<in> set Bs")
    case True
    then show ?thesis
      using Cons.IH [OF True len] at by simp
  next
    case False
    then have "b = a"
      using Cons.prems by simp
    then show ?thesis
      using False Cons.prems by (simp add: tagBlocks_nth_notin)
  qed
qed

lemma tagBlocks_nth:
  "b < length bbs \<Longrightarrow>
   tagBlocks oi pi Bs bbs ! b =
     (if b \<in> set Bs then tagWalk oi pi (bbs ! b) (length (bbs ! b)) else bbs ! b)"
  by (simp add: tagBlocks_nth_in tagBlocks_nth_notin)

lemma State_setNewMetadata:
  "FunctionBlocks (State (setNewMetadata T IL j L)) =
     tagBlocks (MDOriginalInstr L) (MDNode (NextNodeId (State L)) (dumpInstruction T IL j @ [CHR 0x0A]))
       (Blocks (State L)) (FunctionBlocks (State L))"
  by (simp add: setNewMetadata_def MDNode_getDistinct_def)

text \<open>
  C5. The walk over one block, started at the block's end, leaves the block up to and
  including its last annotated instruction as it is and gives the pair to each of the
  unannotated instructions after it (to all of them when none is annotated, to none when
  the last one is); a second walk over the same block, with the same or any other pair,
  changes nothing. The loop over the vector walks exactly the blocks of the vector: each
  of them ends as one walk leaves it, every other block is untouched, and no block is
  added or removed; a second pass over the same vector changes nothing. The walk of a
  turn of the translation loop is this loop over \<^verbatim>\<open>Blocks\<close>, with the current
  original-instruction tag and the node created for the pseudo-op.
\<close>

theorem metadata_walk_idempotent:
  "tagWalk oi pi Block (length Block) =
     rev (dropWhile (\<lambda>I. \<not> hasMetadata I) (rev Block)) @
     map (\<lambda>I. setMetadata PTCInstrMDKind (Some pi) (setMetadata OriginalInstrMDKind oi I))
       (rev (takeWhile (\<lambda>I. \<not> hasMetadata I) (rev Block))) \<and>
   tagWalk oi' pi' (tagWalk oi pi Block (length Block)) (length Block) =
     tagWalk oi pi Block (length Block) \<and>
   length (tagBlocks oi pi Bs bbs) = length bbs \<and>
   (\<forall>b<length bbs.
      tagBlocks oi pi Bs bbs ! b =
        (if b \<in> set Bs then tagWalk oi pi (bbs ! b) (length (bbs ! b)) else bbs ! b)) \<and>
   tagBlocks oi' pi' Bs (tagBlocks oi pi Bs bbs) = tagBlocks oi pi Bs bbs \<and>
   FunctionBlocks (State (setNewMetadata T IL j L)) =
     tagBlocks (MDOriginalInstr L)
       (MDNode (NextNodeId (State L)) (dumpInstruction T IL j @ [CHR 0x0A]))
       (Blocks (State L)) (FunctionBlocks (State L))"
proof (intro conjI allI impI)
  show "tagWalk oi pi Block (length Block) =
     rev (dropWhile (\<lambda>I. \<not> hasMetadata I) (rev Block)) @
     map (\<lambda>I. setMetadata PTCInstrMDKind (Some pi) (setMetadata OriginalInstrMDKind oi I))
       (rev (takeWhile (\<lambda>I. \<not> hasMetadata I) (rev Block)))"
    using tagWalk_eq [of oi pi Block] by (simp only: unannotated_eq stamp_eq)
next
  show "tagWalk oi' pi' (tagWalk oi pi Block (length Block)) (length Block) =
     tagWalk oi pi Block (length Block)"
    by (rule tagWalk_tagWalk)
next
  show "length (tagBlocks oi pi Bs bbs) = length bbs"
    by simp
next
  fix b
  assume "b < length bbs"
  then show "tagBlocks oi pi Bs bbs ! b =
        (if b \<in> set Bs then tagWalk oi pi (bbs ! b) (length (bbs ! b)) else bbs ! b)"
    by (rule tagBlocks_nth)
next
  show "tagBlocks oi' pi' Bs (tagBlocks oi pi Bs bbs) = tagBlocks oi pi Bs bbs"
    by (rule tagBlocks_idem)
next
  show "FunctionBlocks (State (setNewMetadata T IL j L)) =
     tagBlocks (MDOriginalInstr L)
       (MDNode (NextNodeId (State L)) (dumpInstruction T IL j @ [CHR 0x0A]))
       (Blocks (State L)) (FunctionBlocks (State L))"
    by (rule State_setNewMetadata)
qed


theorem metadata_walk_idempotent_witness:
  "tagWalk (Some (MDNode 0 ''insn'')) (MDNode 1 ''op'') exampleBlock 4 =
     [\<lparr>opcode = OtherInst ''a'', metadata = []\<rparr>,
      \<lparr>opcode = OtherInst ''b'', metadata = [(DbgMDKind, MDNode 7 ''loc'')]\<rparr>,
      \<lparr>opcode = OtherInst ''c'',
         metadata = [(OriginalInstrMDKind, MDNode 0 ''insn''), (PTCInstrMDKind, MDNode 1 ''op'')]\<rparr>,
      \<lparr>opcode = OtherInst ''d'',
         metadata = [(OriginalInstrMDKind, MDNode 0 ''insn''), (PTCInstrMDKind, MDNode 1 ''op'')]\<rparr>] \<and>
   tagBlocks (Some (MDNode 0 ''insn'')) (MDNode 1 ''op'') [1, 1] [exampleBlock, exampleBlock] ! 0 =
     exampleBlock \<and>
   tagBlocks (Some (MDNode 0 ''insn'')) (MDNode 1 ''op'') [1, 1] [exampleBlock, exampleBlock] ! 1 =
     [\<lparr>opcode = OtherInst ''a'', metadata = []\<rparr>,
      \<lparr>opcode = OtherInst ''b'', metadata = [(DbgMDKind, MDNode 7 ''loc'')]\<rparr>,
      \<lparr>opcode = OtherInst ''c'',
         metadata = [(OriginalInstrMDKind, MDNode 0 ''insn''), (PTCInstrMDKind, MDNode 1 ''op'')]\<rparr>,
      \<lparr>opcode = OtherInst ''d'',
         metadata = [(OriginalInstrMDKind, MDNode 0 ''insn''), (PTCInstrMDKind, MDNode 1 ''op'')]\<rparr>]"
proof -
  let ?oi = "Some (MDNode 0 ''insn'')"
  let ?pi = "MDNode 1 ''op''"
  let ?R = "rev (dropWhile (\<lambda>I. \<not> hasMetadata I) (rev exampleBlock)) @
     map (\<lambda>I. setMetadata PTCInstrMDKind (Some ?pi) (setMetadata OriginalInstrMDKind ?oi I))
       (rev (takeWhile (\<lambda>I. \<not> hasMetadata I) (rev exampleBlock)))"
  let ?E = "[\<lparr>opcode = OtherInst ''a'', metadata = []\<rparr>,
      \<lparr>opcode = OtherInst ''b'', metadata = [(DbgMDKind, MDNode 7 ''loc'')]\<rparr>,
      \<lparr>opcode = OtherInst ''c'',
         metadata = [(OriginalInstrMDKind, MDNode 0 ''insn''), (PTCInstrMDKind, MDNode 1 ''op'')]\<rparr>,
      \<lparr>opcode = OtherInst ''d'',
         metadata = [(OriginalInstrMDKind, MDNode 0 ''insn''), (PTCInstrMDKind, MDNode 1 ''op'')]\<rparr>]"
  note t = metadata_walk_idempotent [of ?oi ?pi exampleBlock _ _ "[1, 1]" "[exampleBlock, exampleBlock]"]
  have e: "tagWalk ?oi ?pi exampleBlock (length exampleBlock) = ?R"
    using t by (rule conjunct1)
  have l: "length exampleBlock = 4"
    by (simp add: exampleBlock_def)
  have r: "?R = ?E"
    by (simp add: hasMetadata_def exampleBlock_def)
  have w: "tagWalk ?oi ?pi exampleBlock 4 = ?E"
    using e unfolding l r .
  note n = t [THEN conjunct2, THEN conjunct2, THEN conjunct2, THEN conjunct1, rule_format]
  have b0: "tagBlocks ?oi ?pi [1, 1] [exampleBlock, exampleBlock] ! 0 = exampleBlock"
    using n [of 0] by simp
  have "tagBlocks ?oi ?pi [1, 1] [exampleBlock, exampleBlock] ! 1 =
      tagWalk ?oi ?pi exampleBlock (length exampleBlock)"
    using n [of 1] by simp
  then have b1: "tagBlocks ?oi ?pi [1, 1] [exampleBlock, exampleBlock] ! 1 = ?E"
    unfolding l w .
  show ?thesis
    using w b0 b1 by (intro conjI)
qed

subsection \<open>The walk and the opcodes\<close>

lemma map_opcode_tagWalk: "map opcode (tagWalk oi pi Block n) = map opcode Block"
proof (induction n arbitrary: Block)
  case 0
  show ?case by simp
next
  case (Suc n)
  have "map opcode (Block[n := stamp oi pi (Block ! n)]) = map opcode Block"
    by (cases "n < length Block")
       (simp_all add: map_update list_update_same_conv list_update_beyond)
  then show ?case
    using Suc.IH [of "Block[n := stamp oi pi (Block ! n)]"] by (simp add: stamp_def)
qed

lemma map_opcode_tagBlocks:
  "map (map opcode) (tagBlocks oi pi Bs bbs) = map (map opcode) bbs"
proof (induction Bs arbitrary: bbs)
  case Nil
  show ?case by simp
next
  case (Cons a Bs)
  have "map (map opcode) (bbs[a := tagWalk oi pi (bbs ! a) (length (bbs ! a))]) =
        map (map opcode) bbs"
    by (cases "a < length bbs")
       (simp_all add: map_update map_opcode_tagWalk list_update_same_conv list_update_beyond)
  then show ?case
    by (simp add: Cons.IH)
qed

subsection \<open>The walk after an emission\<close>



section \<open>What one turn of the loop computes\<close>

lemma MDOriginalInstr_setNewMetadata [simp]:
  "MDOriginalInstr (setNewMetadata T IL j L) = MDOriginalInstr L"
  by (simp add: setNewMetadata_def MDNode_getDistinct_def split: prod.splits)

lemma StopTranslation_setNewMetadata [simp]:
  "StopTranslation (setNewMetadata T IL j L) = StopTranslation L"
  by (simp add: setNewMetadata_def MDNode_getDistinct_def split: prod.splits)

lemma NextNodeId_setNewMetadata [simp]:
  "NextNodeId (State (setNewMetadata T IL j L)) = Suc (NextNodeId (State L))"
  by (simp add: setNewMetadata_def MDNode_getDistinct_def split: prod.splits)



lemma opcodes_loopBody:
  "map (map opcode) (FunctionBlocks (State (loopBody T IL NextPC j I L))) =
   map (map opcode) (FunctionBlocks (State (dispatch T IL NextPC j I L)))"
  by (simp add: loopBody_def State_setNewMetadata map_opcode_tagBlocks)

lemma opcodes_CreateBr:
  "map (map opcode) (FunctionBlocks (CreateBr Dest st)) =
   (map (map opcode) (FunctionBlocks st))
     [InsertBlock st := map opcode (FunctionBlocks st ! InsertBlock st) @ [BranchInst Dest]]"
  by (simp add: CreateBr_def map_update newInst_def)

section \<open>What the loop computes\<close>

lemma batchLoop_last:
  assumes "j < instruction_count IL" and "\<not> StopTranslation L"
    and "unat j < length (instructions IL)" and "j = instruction_count IL - 1"
  shows "batchLoop T IL NextPC j L = Inr (loopBody T IL NextPC j (instructions IL ! unat j) L)"
proof -
  have "j + 1 = instruction_count IL"
    using assms(4) by simp
  then have "batchLoop T IL NextPC (j + 1) (loopBody T IL NextPC j (instructions IL ! unat j) L) =
      Inr (loopBody T IL NextPC j (instructions IL ! unat j) L)"
    by (subst batchLoop.simps) simp
  then show ?thesis
    using assms(1-3) by (subst batchLoop.simps) simp
qed

lemma batchLoop_step:
  assumes "j < instruction_count IL" and "\<not> StopTranslation L"
    and "unat j < length (instructions IL)"
  shows "batchLoop T IL NextPC j L =
    batchLoop T IL NextPC (j + 1) (loopBody T IL NextPC j (instructions IL ! unat j) L)"
  using assms by (subst batchLoop.simps) simp

lemma batchLoop_stopped:
  "StopTranslation L \<Longrightarrow> batchLoop T IL NextPC j L = Inr L"
  by (subst batchLoop.simps) simp

lemma batchLoop_reaches:
  "loopReaches T IL NextPC j L j' L' \<Longrightarrow>
   batchLoop T IL NextPC j L = batchLoop T IL NextPC j' L'"
proof (induction rule: loopReaches.induct)
  case (here j L)
  show ?case by simp
next
  case (turn j L j' L')
  have "batchLoop T IL NextPC j L =
    batchLoop T IL NextPC (j + 1) (loopBody T IL NextPC j (instructions IL ! unat j) L)"
    using turn.hyps(1-3) by (rule batchLoop_step)
  then show ?case
    using turn.IH by (rule trans)
qed

lemma loopReaches_snoc:
  assumes "loopReaches T IL NextPC j0 L0 j L"
    and "j < instruction_count IL" and "\<not> StopTranslation L"
    and "unat j < length (instructions IL)"
  shows "loopReaches T IL NextPC j0 L0 (j + 1) (loopBody T IL NextPC j (instructions IL ! unat j) L)"
  using assms
proof (induction rule: loopReaches.induct)
  case (here j L)
  show ?case
    using here.prems loopReaches.here by (rule loopReaches.turn)
next
  case (turn j L j' L')
  have "loopReaches T IL NextPC (j + 1) (loopBody T IL NextPC j (instructions IL ! unat j) L)
      (j' + 1) (loopBody T IL NextPC j' (instructions IL ! unat j') L')"
    using turn.prems by (rule turn.IH)
  with turn.hyps(1-3) show ?case
    by (rule loopReaches.turn)
qed










section \<open>Claims about the translation loop\<close>






lemma translateBatch_reaches:
  assumes "instructions IL = First # Rest"
    and "newInstruction T First True (newFunction T IL st) = ((Stop, MD), st0)"
    and "loopReaches T IL (VirtualAddress + ConsumedSize) 1
           \<lparr>State = st0, MDOriginalInstr = MD, StopTranslation = Stop\<rparr> j L"
  shows "translateBatch T IL VirtualAddress ConsumedSize st =
    (case batchLoop T IL (VirtualAddress + ConsumedSize) j L of
       Inl e \<Rightarrow> Inl e
     | Inr L2 \<Rightarrow>
         Inr (L2\<lparr>State := closeLastInstruction T (VirtualAddress + ConsumedSize) (State L2)\<rparr>))"
  using assms(1,2) batchLoop_reaches [OF assms(3)]
  by (simp add: translateBatch_def Let_def)

text \<open>
  C1. Translate a batch at \<^verbatim>\<open>VirtualAddress\<close> of which the decoder consumed
  \<^verbatim>\<open>ConsumedSize\<close> bytes, and let the loop, started after the first marker, reach
  pseudo-op \<^verbatim>\<open>j\<close>, a call, with the loop's condition true. When \<^verbatim>\<open>j\<close> is the last
  index, this turn is the last: the translation of the batch ends with the state of this
  turn (handed to \<^verbatim>\<open>closeLastInstruction\<close>), whose instructions are those the call
  handler and the registry left plus one branch at the end of the builder's block, to the
  block the registry gives for \<^verbatim>\<open>VirtualAddress + ConsumedSize\<close>. Otherwise the
  translation goes on with the next pseudo-op and the instructions of this turn are those
  the call handler left: no branch is added.
\<close>

theorem call_fallthrough_branch:
  assumes "instructions IL = First # Rest"
    and "newInstruction T First True (newFunction T IL st) = ((Stop, MD), st0)"
    and "loopReaches T IL (VirtualAddress + ConsumedSize) 1
           \<lparr>State = st0, MDOriginalInstr = MD, StopTranslation = Stop\<rparr> j L"
    and "j < instruction_count IL" and "\<not> StopTranslation L"
    and "unat j < length (instructions IL)"
    and "opc (instructions IL ! unat j) = PTC_INSTRUCTION_op_call"
  shows
    "let NextPC = VirtualAddress + ConsumedSize;
         Instruction = instructions IL ! unat j;
         st1 = translateCall T Instruction ((State L)\<lparr>Blocks := [InsertBlock (State L)]\<rparr>);
         (Dest, st2) = getBlockAt T NextPC st1;
         L' = loopBody T IL NextPC j Instruction L
     in if j = instruction_count IL - 1 then
          translateBatch T IL VirtualAddress ConsumedSize st =
            Inr (L'\<lparr>State := closeLastInstruction T NextPC (State L')\<rparr>) \<and>
          map (map opcode) (FunctionBlocks (State L')) =
            (map (map opcode) (FunctionBlocks st2))
              [InsertBlock st2 := map opcode (FunctionBlocks st2 ! InsertBlock st2) @ [BranchInst Dest]]
        else
          translateBatch T IL VirtualAddress ConsumedSize st =
            (case batchLoop T IL NextPC (j + 1) L' of
               Inl e \<Rightarrow> Inl e
             | Inr L2 \<Rightarrow> Inr (L2\<lparr>State := closeLastInstruction T NextPC (State L2)\<rparr>)) \<and>
          map (map opcode) (FunctionBlocks (State L')) = map (map opcode) (FunctionBlocks st1)"
proof -
  note tb = translateBatch_reaches [OF assms(1-3)]
  show ?thesis
  proof (cases "j = instruction_count IL - 1")
    case True
    have "batchLoop T IL (VirtualAddress + ConsumedSize) j L =
        Inr (loopBody T IL (VirtualAddress + ConsumedSize) j (instructions IL ! unat j) L)"
      using assms(4-6) True by (rule batchLoop_last)
    then show ?thesis
      using True assms(7) tb
      by (simp add: Let_def opcodes_loopBody dispatch_def opcodes_CreateBr split: prod.splits)
  next
    case False
    have "batchLoop T IL (VirtualAddress + ConsumedSize) j L =
        batchLoop T IL (VirtualAddress + ConsumedSize) (j + 1)
          (loopBody T IL (VirtualAddress + ConsumedSize) j (instructions IL ! unat j) L)"
      using assms(4-6) by (rule batchLoop_step)
    then show ?thesis
      using False assms(7) tb
      by (simp add: Let_def opcodes_loopBody dispatch_def split: prod.splits)
  qed
qed


theorem call_fallthrough_branch_witness:
  "translateBatch exampleTranslator
     \<lparr>instructions = [insn_start, op_call], instruction_count = 2\<rparr> 0 1 exampleState =
   Inr (loopBody exampleTranslator \<lparr>instructions = [insn_start, op_call], instruction_count = 2\<rparr>
     (0 + 1) 1 op_call afterFirstMarker) \<and>
   map (map opcode) (FunctionBlocks (State
     (loopBody exampleTranslator \<lparr>instructions = [insn_start, op_call], instruction_count = 2\<rparr>
       (0 + 1) 1 op_call afterFirstMarker))) =
   [[OtherInst ''call'', BranchInst 1], []] \<and>
   map (map opcode) (FunctionBlocks (State
     (loopBody exampleTranslator
       \<lparr>instructions = [insn_start, op_call, op_mov], instruction_count = 3\<rparr>
       (0 + 1) 1 op_call afterFirstMarker))) =
   [[OtherInst ''call''], []]"
proof -
  let ?A = "\<lparr>instructions = [insn_start, op_call], instruction_count = 2\<rparr>"
  let ?B = "\<lparr>instructions = [insn_start, op_call, op_mov], instruction_count = 3\<rparr>"
  let ?st0 = "exampleState\<lparr>NextNodeId := 1\<rparr>"
  let ?MD = "Some (MDNode 0 ''insn'')"
  have first: "newInstruction exampleTranslator insn_start True (newFunction exampleTranslator IL exampleState) =
      ((False, ?MD), ?st0)" for IL
    by (simp add: exampleTranslator_def exampleState_def insn_start_def)
  have L0: "\<lparr>State = ?st0, MDOriginalInstr = ?MD, StopTranslation = False\<rparr> = afterFirstMarker"
    by (simp add: afterFirstMarker_def)
  have r: "loopReaches exampleTranslator IL (0 + 1) 1
      \<lparr>State = ?st0, MDOriginalInstr = ?MD, StopTranslation = False\<rparr> 1 afterFirstMarker" for IL
    unfolding L0 by (rule loopReaches.here)
  have ns: "\<not> StopTranslation afterFirstMarker"
    by (simp add: afterFirstMarker_def)
  have st1: "translateCall exampleTranslator op_call
      ((State afterFirstMarker)\<lparr>Blocks := [InsertBlock (State afterFirstMarker)]\<rparr>) =
      \<lparr>FunctionBlocks = [[newInst (OtherInst ''call'')], []], InsertBlock = 0, Blocks = [0],
        NextNodeId = 1, Private = ()\<rparr>"
    by (simp add: exampleTranslator_def exampleState_def exampleEmit_def afterFirstMarker_def)
  have gb: "getBlockAt exampleTranslator pc st = (unat pc, st)" for pc st
    by (simp add: exampleTranslator_def)
  have cl: "closeLastInstruction exampleTranslator pc st = st" for pc st
    by (simp add: exampleTranslator_def)
  have a: "translateBatch exampleTranslator ?A 0 1 exampleState =
      Inr (loopBody exampleTranslator ?A (0 + 1) 1 op_call afterFirstMarker) \<and>
    map (map opcode) (FunctionBlocks (State (loopBody exampleTranslator ?A (0 + 1) 1 op_call afterFirstMarker))) =
      [[OtherInst ''call'', BranchInst 1], []]"
    using call_fallthrough_branch [where T = exampleTranslator and IL = ?A and First = insn_start
        and Rest = "[op_call]" and st = exampleState and Stop = False and MD = ?MD and ?st0.0 = ?st0
        and VirtualAddress = 0 and ConsumedSize = 1 and j = 1 and L = afterFirstMarker,
        OF _ first r] ns
    by (simp add: Let_def op_call_def [of] st1 [unfolded op_call_def] gb cl newInst_def)
  have b: "map (map opcode) (FunctionBlocks (State (loopBody exampleTranslator ?B (0 + 1) 1 op_call afterFirstMarker))) =
      [[OtherInst ''call''], []]"
    using call_fallthrough_branch [where T = exampleTranslator and IL = ?B and First = insn_start
        and Rest = "[op_call, op_mov]" and st = exampleState and Stop = False and MD = ?MD
        and ?st0.0 = ?st0 and VirtualAddress = 0 and ConsumedSize = 1 and j = 1
        and L = afterFirstMarker, OF _ first r] ns
    by (simp add: Let_def op_call_def [of] st1 [unfolded op_call_def] gb cl newInst_def)
  show ?thesis
    using a b by (intro conjI) simp_all
qed

text \<open>
  The loop does not reach a call that follows a marker whose handler asked to stop: the
  call handler does not run then, and no branch is made.
\<close>

lemma early_stop_skips_call:
  "map_sum id (\<lambda>L. map (map opcode) (FunctionBlocks (State L)))
     (translateBatch exampleTranslator
        \<lparr>instructions = [insn_start, insn_start_stop, op_call], instruction_count = 3\<rparr> 0 1
        exampleState) = Inr [[], []]"
  by (simp add: translateBatch_def batchLoop.simps exampleTranslator_def exampleState_def
      insn_start_def insn_start_stop_def op_call_def loopBody_def dispatch_def
      setNewMetadata_def MDNode_getDistinct_def exampleEmit_def newInst_def hasMetadata_def)

section \<open>Claims about serialization\<close>

text \<open>
  C8. The claim: a failure to open the output file is reported to the caller. The code
  never looks at the state of the stream: with a sink that has no copy and an output path
  that cannot be opened, \<^verbatim>\<open>serialize\<close> returns normally and nothing is written.
\<close>

theorem unopenable_output_not_reported:
  "serialize exampleSink ''out.ll'' readOnlyFS = Inr readOnlyFS"
  by (simp add: serialize_def exampleSink_def readOnlyFS_def ofstream_open_def)

text \<open>
  C8, amended. \<^verbatim>\<open>serialize\<close> always returns normally. It first asks the sink; when the
  sink has a copy, nothing more is written; otherwise the output file then holds the
  module's text when it could be opened, and the file system is left as the sink left it
  when it could not.
\<close>

theorem serialize_writes_or_skips:
  "serialize Debug OutputPath fs =
     Inr (let (copied, fs1) = copySource Debug fs in
          if copied then fs1
          else if canOpen fs1 OutputPath then
            fs1\<lparr>contents := (contents fs1)(OutputPath \<mapsto> moduleText Debug)\<rparr>
          else fs1)"
  by (simp add: serialize_def ofstream_open_def split: prod.splits)

theorem serialize_writes_or_skips_witness:
  "serialize exampleSink ''out.ll'' writableFS =
     Inr (writableFS\<lparr>contents := [''out.ll'' \<mapsto> ''define void @root()'']\<rparr>) \<and>
   serialize (exampleSink\<lparr>copySource := (\<lambda>fs. (True, fs))\<rparr>) ''out.ll'' writableFS =
     Inr writableFS"
  using serialize_writes_or_skips [of exampleSink "''out.ll''" writableFS]
    serialize_writes_or_skips [of "exampleSink\<lparr>copySource := (\<lambda>fs. (True, fs))\<rparr>" "''out.ll''" writableFS]
  by (simp add: exampleSink_def writableFS_def)

end
